theory Spec2Isabelle
  imports Main "HOL-Library.Char_ord"
begin

section \<open>The registration view of wallabag-kindle-consumer (interface.py)\<close>

text \<open>
  A shallow embedding of \<^verbatim>\<open>wallabag_kindle_consumer/interface.py\<close>: the class
  \<^verbatim>\<open>Validator\<close>, the state of \<^verbatim>\<open>ViewBase\<close> and the handler \<^verbatim>\<open>IndexView.post\<close>.

  Python dictionaries (the submitted form, the error mappings) are maps
  \<open>string \<rightharpoonup> string\<close>; \<^verbatim>\<open>d.update(e)\<close> is \<open>d ++ e\<close>; an attribute that is
  \<^verbatim>\<open>None\<close> or a string is a \<open>string option\<close>.  Mutation of \<^verbatim>\<open>self\<close> is explicit state
  passing.  The collaborators that are not part of this module (the function
  \<^verbatim>\<open>validate_email\<close> of the email-validator library, \<^verbatim>\<open>wallabag.get_token\<close>,
  \<^verbatim>\<open>wallabag.make_tags\<close>, the configuration) are parameters, collected in the record
  \<open>env\<close>.  What lies outside the module is a record \<open>world\<close>: the persisted
  rows of the user table and a trace with one event for each call that leaves the
  module, in the order of the calls.
\<close>

subsection \<open>Strings\<close>

text \<open>\<^verbatim>\<open>s.endswith(suf)\<close> of Python: \<open>suf\<close> is a suffix of \<open>s\<close>, compared character by character.\<close>

definition endswith :: "string \<Rightarrow> string \<Rightarrow> bool" where
  "endswith s suf = (length suf \<le> length s \<and> drop (length s - length suf) s = suf)"

text \<open>
  The membership-and-length test of the source,
  \<^verbatim>\<open>k not in self.data or 0 == len(self.data[k])\<close>.
\<close>

definition not_given :: "(string \<rightharpoonup> string) \<Rightarrow> string \<Rightarrow> bool" where
  "not_given d k = (case d k of None \<Rightarrow> True | Some s \<Rightarrow> 0 = length s)"

subsection \<open>Validator\<close>

record validator =
  data :: "string \<rightharpoonup> string"
  errors :: "string \<rightharpoonup> string"
  username :: "string option"
  password :: "string option"
  kindle_email :: "string option"
  notify_email :: "string option"

text \<open>\<^verbatim>\<open>Validator.__init__\<close> (the event loop is not part of the model).\<close>

definition Validator :: "(string \<rightharpoonup> string) \<Rightarrow> validator" where
  "Validator d =
     \<lparr>data = d, errors = Map.empty, username = None, password = None,
      kindle_email = None, notify_email = None\<rparr>"

text \<open>
  \<^verbatim>\<open>validate_credentials\<close>.  The pass keeps a local dictionary \<^verbatim>\<open>errors\<close>; its two
  halves are \<open>credentials_username\<close> and \<open>credentials_password\<close>, each on the pair of
  the local dictionary and the object.  The pass has no \<^verbatim>\<open>await\<close>: it runs in one
  piece.  It returns \<^verbatim>\<open>0 == len(errors)\<close> and the updated object.
\<close>

definition credentials_username ::
  "(string \<rightharpoonup> string) \<times> validator \<Rightarrow> (string \<rightharpoonup> string) \<times> validator" where
  "credentials_username = (\<lambda>(errs, v).
     if not_given (data v) ''username''
     then (errs(''username'' \<mapsto> ''Username not given or empty''), v)
     else (errs, v\<lparr>username := data v ''username''\<rparr>))"

definition credentials_password ::
  "(string \<rightharpoonup> string) \<times> validator \<Rightarrow> (string \<rightharpoonup> string) \<times> validator" where
  "credentials_password = (\<lambda>(errs, v).
     if not_given (data v) ''password''
     then (errs(''password'' \<mapsto> ''Password not given or empty''), v)
     else (errs, v\<lparr>password := data v ''password''\<rparr>))"

text \<open>The last two lines of either pass: \<^verbatim>\<open>self.errors.update(errors); return 0 == len(errors)\<close>.\<close>

definition finish_pass :: "(string \<rightharpoonup> string) \<times> validator \<Rightarrow> bool \<times> validator" where
  "finish_pass = (\<lambda>(errs, v). (errs = Map.empty, v\<lparr>errors := errors v ++ errs\<rparr>))"

definition validate_credentials :: "validator \<Rightarrow> bool \<times> validator" where
  "validate_credentials v =
     finish_pass (credentials_password (credentials_username (Map.empty, v)))"

text \<open>
  \<^verbatim>\<open>_validate_email\<close> returns \<^verbatim>\<open>val['email']\<close>, the address as \<^verbatim>\<open>validate_email\<close>
  normalises it, or lets \<^verbatim>\<open>EmailNotValidError\<close> through.  The library function is
  the parameter \<open>ve\<close>: \<open>ve a = None\<close> when it raises \<^verbatim>\<open>EmailNotValidError\<close> on \<open>a\<close>,
  \<open>ve a = Some n\<close> when it returns a result whose \<^verbatim>\<open>'email'\<close> entry is \<open>n\<close>.
\<close>

type_synonym email_validator = "string \<Rightarrow> string option"

text \<open>
  \<^verbatim>\<open>validate_emails\<close>, in the two pieces between which the coroutine can be
  suspended (each \<^verbatim>\<open>await self._validate_email(...)\<close> is the first action of its
  \<^verbatim>\<open>try\<close> block), followed by \<open>finish_pass\<close>.
\<close>

definition emails_kindle ::
  "email_validator \<Rightarrow> (string \<rightharpoonup> string) \<times> validator \<Rightarrow> (string \<rightharpoonup> string) \<times> validator" where
  "emails_kindle ve = (\<lambda>(errs, v).
     if not_given (data v) ''kindleEmail''
     then (errs(''kindleEmail'' \<mapsto> ''Kindle email address not given or empty''), v)
     else (case ve (the (data v ''kindleEmail'')) of
             Some kindleEmail \<Rightarrow>
               if endswith kindleEmail ''@kindle.com'' \<or> endswith kindleEmail ''@free.kindle.com''
               then (errs, v\<lparr>kindle_email := Some kindleEmail\<rparr>)
               else (errs(''kindleEmail'' \<mapsto>
                       ''Given Kindle email does not end with @kindle.com or @free.kindle.com''), v)
           | None \<Rightarrow>
               (errs(''kindleEmail'' \<mapsto> ''Kindle email is not a valid email address''), v)))"

definition emails_notify ::
  "email_validator \<Rightarrow> (string \<rightharpoonup> string) \<times> validator \<Rightarrow> (string \<rightharpoonup> string) \<times> validator" where
  "emails_notify ve = (\<lambda>(errs, v).
     if not_given (data v) ''notifyEmail''
     then (errs(''notifyEmail'' \<mapsto> ''Notification email not given or empty''), v)
     else (case ve (the (data v ''notifyEmail'')) of
             Some notifyEmail \<Rightarrow> (errs, v\<lparr>notify_email := Some notifyEmail\<rparr>)
           | None \<Rightarrow>
               (errs(''notifyEmail'' \<mapsto> ''Notification email is not a valid email address''), v)))"

definition validate_emails :: "email_validator \<Rightarrow> validator \<Rightarrow> bool \<times> validator" where
  "validate_emails ve v = finish_pass (emails_notify ve (emails_kindle ve (Map.empty, v)))"

text \<open>The property \<^verbatim>\<open>success\<close>: \<^verbatim>\<open>0 == len(self.errors)\<close>.\<close>

definition success :: "validator \<Rightarrow> bool" where
  "success v = (errors v = Map.empty)"

text \<open>
  \<^verbatim>\<open>asyncio.gather(validator.validate_emails(), validator.validate_credentials())\<close>.
  The event loop starts the coroutines in the order of the arguments and switches
  only at an \<^verbatim>\<open>await\<close> that suspends.  \<^verbatim>\<open>validate_emails\<close> is suspended at its first
  call of \<^verbatim>\<open>_validate_email\<close>, if it makes one; \<^verbatim>\<open>validate_credentials\<close> then runs to
  its end, and \<^verbatim>\<open>validate_emails\<close> goes on after it.  The results of the two
  coroutines are dropped by the caller; the object is what is left.
\<close>

definition gather :: "email_validator \<Rightarrow> validator \<Rightarrow> validator" where
  "gather ve v =
     (if \<not> not_given (data v) ''kindleEmail'' then
        (let v1 = snd (validate_credentials v)
         in snd (finish_pass (emails_notify ve (emails_kindle ve (Map.empty, v1)))))
      else if \<not> not_given (data v) ''notifyEmail'' then
        (let (errs, v1) = emails_kindle ve (Map.empty, v);
             v2 = snd (validate_credentials v1)
         in snd (finish_pass (emails_notify ve (errs, v2))))
      else
        snd (validate_credentials (snd (validate_emails ve v))))"

subsection \<open>The collaborators\<close>

text \<open>
  Modelled from the spec: the class \<^verbatim>\<open>models.User\<close> is not in \<^verbatim>\<open>interface.py\<close>.  The
  record has the three attributes the view sets (the \<^verbatim>\<open>name\<close>, \<^verbatim>\<open>kindleMail\<close> and
  \<^verbatim>\<open>email\<close> of the specification's User); what \<^verbatim>\<open>get_token\<close> may store on the object
  besides is not part of the model.
\<close>

record user =
  name :: "string option"
  kindle_mail :: "string option"
  email :: "string option"

text \<open>
  One event for each call that leaves the module: the construction of the
  \<^verbatim>\<open>User\<close>, the count query on the name, \<^verbatim>\<open>get_token\<close>, \<^verbatim>\<open>session.add\<close> and
  \<^verbatim>\<open>session.commit\<close>.
\<close>

datatype event =
    NewUser user
  | QueryCount "string option"
  | GetToken user "string option"
  | SessionAdd user
  | SessionCommit

record world =
  rows :: "user list"
  trace :: "event list"

record env =
  validate_email :: email_validator
  get_token :: "user \<Rightarrow> string option \<Rightarrow> bool"
  make_tags :: "string \<Rightarrow> string list"
  wallabag_host :: string
  cfg_tag :: string

definition emit :: "event \<Rightarrow> world \<Rightarrow> world" where
  "emit e w = w\<lparr>trace := trace w @ [e]\<rparr>"

text \<open>
  \<^verbatim>\<open>models.User(name=validator.username, kindle_mail=validator.kindle_email,
  email=validator.notify_email)\<close>
\<close>

definition new_user :: "validator \<Rightarrow> world \<Rightarrow> user \<times> world" where
  "new_user v w =
     (let u = \<lparr>name = username v, kindle_mail = kindle_email v, email = notify_email v\<rparr>
      in (u, emit (NewUser u) w))"

text \<open>
  Modelled from the spec: the session that \<^verbatim>\<open>models.context_session\<close> provides is
  not in \<^verbatim>\<open>interface.py\<close>.  It is the UserRepository of the specification, a lookup
  by name and an insert that does not fail.  The session of
  \<^verbatim>\<open>with self._session as session\<close> is the list of the objects added to it and not yet
  committed; it is empty when the block is entered.
  \<^verbatim>\<open>session.query(models.User.name).filter(models.User.name == n).count()\<close> counts
  the persisted rows of that name; \<^verbatim>\<open>commit\<close> appends the added objects to the rows.
\<close>

type_synonym session = "user list"

definition query_count :: "string option \<Rightarrow> world \<Rightarrow> nat \<times> world" where
  "query_count n w = (length (filter (\<lambda>u. name u = n) (rows w)), emit (QueryCount n) w)"

definition session_add :: "user \<Rightarrow> session \<Rightarrow> world \<Rightarrow> session \<times> world" where
  "session_add u s w = (s @ [u], emit (SessionAdd u) w)"

definition session_commit :: "session \<Rightarrow> world \<Rightarrow> session \<times> world" where
  "session_commit s w = ([], emit SessionCommit (w\<lparr>rows := rows w @ s\<rparr>))"

text \<open>
  \<^verbatim>\<open>self._wallabag.get_token(user, password)\<close>: the view reads only whether the
  result is true.  The function is a parameter; a call that raises instead of
  returning is not a run of the model.
\<close>

definition call_get_token :: "env \<Rightarrow> user \<Rightarrow> string option \<Rightarrow> world \<Rightarrow> bool \<times> world" where
  "call_get_token en u p w = (get_token en u p, emit (GetToken u p) w)"

subsection \<open>ViewBase and IndexView.post\<close>

record view =
  v_errors :: "string \<rightharpoonup> string"
  v_data :: "string \<rightharpoonup> string"
  v_messages :: "string list"

definition ViewBase :: view where
  "ViewBase = \<lparr>v_errors = Map.empty, v_data = Map.empty, v_messages = []\<rparr>"

definition add_errors :: "(string \<rightharpoonup> string) \<Rightarrow> view \<Rightarrow> view" where
  "add_errors errs vw = vw\<lparr>v_errors := v_errors vw ++ errs\<rparr>"

definition set_data :: "(string \<rightharpoonup> string) \<Rightarrow> view \<Rightarrow> view" where
  "set_data d vw = vw\<lparr>v_data := d\<rparr>"

definition add_message :: "string \<Rightarrow> view \<Rightarrow> view" where
  "add_message msg vw = vw\<lparr>v_messages := v_messages vw @ [msg]\<rparr>"

text \<open>The dictionary \<^verbatim>\<open>_template\<close> hands to the template.\<close>

record response =
  r_errors :: "string \<rightharpoonup> string"
  r_data :: "string \<rightharpoonup> string"
  r_messages :: "string list"
  r_wallabag_host :: string
  r_tags :: "string list"

definition template :: "env \<Rightarrow> view \<Rightarrow> response" where
  "template en vw =
     \<lparr>r_errors = v_errors vw, r_data = v_data vw, r_messages = v_messages vw,
      r_wallabag_host = wallabag_host en, r_tags = make_tags en (cfg_tag en)\<rparr>"

text \<open>
  The body of \<^verbatim>\<open>if validator.success:\<close> in \<^verbatim>\<open>IndexView.post\<close>: the \<^verbatim>\<open>User\<close> is
  constructed first, then the rows are counted, then the token is asked for, then
  the object is added and committed.
\<close>

definition register :: "env \<Rightarrow> validator \<Rightarrow> view \<Rightarrow> world \<Rightarrow> view \<times> world" where
  "register en v vw w =
     (let (u, w1) = new_user v w;
          s0 = ([] :: session);
          (cnt, w2) = query_count (username v) w1
      in if cnt \<noteq> 0 then
           (add_errors [''user'' \<mapsto> ''User is already registered''] vw, w2)
         else
           (let (ok, w3) = call_get_token en u (password v) w2
            in if \<not> ok then
                 (add_errors
                    [''auth'' \<mapsto> ''Cannot authenticate at wallabag server to get a token''] vw,
                  w3)
               else
                 (let (s1, w4) = session_add u s0 w3;
                      (s2, w5) = session_commit s1 w4
                  in (set_data Map.empty (add_message ''User successfully registered'' vw),
                      w5))))"

definition post :: "env \<Rightarrow> (string \<rightharpoonup> string) \<Rightarrow> world \<Rightarrow> response \<times> world" where
  "post en d w =
     (let vw0 = set_data d ViewBase;
          v = gather (validate_email en) (Validator d);
          vw1 = add_errors (errors v) vw0;
          (vw2, w') = (if success v then register en v vw1 w else (vw1, w))
      in (template en vw2, w'))"

text \<open>How often a run called \<^verbatim>\<open>get_token\<close> and \<^verbatim>\<open>session.add\<close>, read off the trace.\<close>

fun is_GetToken :: "event \<Rightarrow> bool" where
  "is_GetToken (GetToken u p) = True"
| "is_GetToken e = False"

fun is_SessionAdd :: "event \<Rightarrow> bool" where
  "is_SessionAdd (SessionAdd u) = True"
| "is_SessionAdd e = False"

definition token_calls :: "world \<Rightarrow> nat" where
  "token_calls w = length (filter is_GetToken (trace w))"

definition add_calls :: "world \<Rightarrow> nat" where
  "add_calls w = length (filter is_SessionAdd (trace w))"

text \<open>
  Shorthands for the statements below: the \<^verbatim>\<open>validator\<close> object of \<^verbatim>\<open>post\<close> after the
  \<^verbatim>\<open>gather\<close>, and the \<^verbatim>\<open>User\<close> that \<^verbatim>\<open>post\<close> constructs from it.
\<close>

abbreviation validated :: "env \<Rightarrow> (string \<rightharpoonup> string) \<Rightarrow> validator" where
  "validated en d \<equiv> gather (validate_email en) (Validator d)"

abbreviation candidate :: "env \<Rightarrow> (string \<rightharpoonup> string) \<Rightarrow> user" where
  "candidate en d \<equiv>
     \<lparr>name = username (validated en d), kindle_mail = kindle_email (validated en d),
      email = notify_email (validated en d)\<rparr>"

subsection \<open>Every point at which the credentials pass can run\<close>

text \<open>
  \<open>interleave i\<close> runs \<^verbatim>\<open>validate_credentials\<close> after \<open>i\<close> of the three pieces of
  \<^verbatim>\<open>validate_emails\<close> (the Kindle address, the notification address, the update of
  \<^verbatim>\<open>self.errors\<close>); \<open>gather\<close> is one of these schedules.
\<close>

definition interleave :: "nat \<Rightarrow> email_validator \<Rightarrow> validator \<Rightarrow> validator" where
  "interleave i ve v =
     (if i = 0 then
        snd (finish_pass (emails_notify ve (emails_kindle ve
               (Map.empty, snd (validate_credentials v)))))
      else if i = 1 then
        (let (errs, v1) = emails_kindle ve (Map.empty, v)
         in snd (finish_pass (emails_notify ve (errs, snd (validate_credentials v1)))))
      else if i = 2 then
        (let (errs, v1) = emails_notify ve (emails_kindle ve (Map.empty, v))
         in snd (finish_pass (errs, snd (validate_credentials v1))))
      else
        snd (validate_credentials (snd (validate_emails ve v))))"

subsection \<open>Summaries of the passes\<close>

text \<open>The error dictionaries of the four checks, as functions of the submitted form.\<close>

definition username_errs :: "(string \<rightharpoonup> string) \<Rightarrow> (string \<rightharpoonup> string)" where
  "username_errs d = fst (credentials_username (Map.empty, Validator d))"

definition password_errs :: "(string \<rightharpoonup> string) \<Rightarrow> (string \<rightharpoonup> string)" where
  "password_errs d = fst (credentials_password (Map.empty, Validator d))"

definition kindle_errs :: "email_validator \<Rightarrow> (string \<rightharpoonup> string) \<Rightarrow> (string \<rightharpoonup> string)" where
  "kindle_errs ve d = fst (emails_kindle ve (Map.empty, Validator d))"

definition notify_errs :: "email_validator \<Rightarrow> (string \<rightharpoonup> string) \<Rightarrow> (string \<rightharpoonup> string)" where
  "notify_errs ve d = fst (emails_notify ve (Map.empty, Validator d))"

definition cred_errs :: "(string \<rightharpoonup> string) \<Rightarrow> (string \<rightharpoonup> string)" where
  "cred_errs d = username_errs d ++ password_errs d"

definition email_errs :: "email_validator \<Rightarrow> (string \<rightharpoonup> string) \<Rightarrow> (string \<rightharpoonup> string)" where
  "email_errs ve d = kindle_errs ve d ++ notify_errs ve d"

subsection \<open>A case-insensitive suffix test and stub collaborators\<close>

text \<open>
  \<open>ci_endswith\<close> is not in the source: it is the suffix test "case-insensitive on the
  full address" of the specification, \<^verbatim>\<open>s.lower().endswith(suf.lower())\<close> on ASCII
  letters, to compare with the \<open>endswith\<close> the source calls.
\<close>

definition lower_char :: "char \<Rightarrow> char" where
  "lower_char c =
     (if CHR ''A'' \<le> c \<and> c \<le> CHR ''Z'' then char_of (of_char c + (32 :: nat)) else c)"

definition ci_endswith :: "string \<Rightarrow> string \<Rightarrow> bool" where
  "ci_endswith s suf = endswith (map lower_char s) (map lower_char suf)"

text \<open>
  An environment for the concrete runs: the given email validator, a token service
  that answers \<open>ok\<close> to every call, one tag.
\<close>

definition stub_env :: "email_validator \<Rightarrow> bool \<Rightarrow> env" where
  "stub_env ve ok =
     \<lparr>validate_email = ve, get_token = (\<lambda>u p. ok), make_tags = (\<lambda>t. [t]),
      wallabag_host = ''wallabag.example'', cfg_tag = ''kindle''\<rparr>"

subsection \<open>The handler when get_token may raise\<close>

text \<open>
  \<^verbatim>\<open>IndexView.post\<close> has no \<^verbatim>\<open>try\<close> around \<^verbatim>\<open>await self._wallabag.get_token(...)\<close>:
  an exception raised inside the call (a transport error, say) leaves the handler,
  and nothing after the call runs.  \<open>raises u p\<close> says that the call on \<open>u\<close> and \<open>p\<close>
  raises; otherwise it returns \<open>get_token en u p\<close>.  \<open>register_exc\<close> and \<open>post_exc\<close>
  are \<open>register\<close> and \<open>post\<close> with this one more branch; where the call returns they
  agree with them.
\<close>

datatype error = TokenError

definition call_get_token_exc ::
  "(user \<Rightarrow> string option \<Rightarrow> bool) \<Rightarrow> env \<Rightarrow> user \<Rightarrow> string option \<Rightarrow> world
     \<Rightarrow> (error + bool) \<times> world" where
  "call_get_token_exc raises en u p w =
     (if raises u p then Inl TokenError else Inr (get_token en u p), emit (GetToken u p) w)"

definition register_exc ::
  "(user \<Rightarrow> string option \<Rightarrow> bool) \<Rightarrow> env \<Rightarrow> validator \<Rightarrow> view \<Rightarrow> world
     \<Rightarrow> (error + view) \<times> world" where
  "register_exc raises en v vw w =
     (let (u, w1) = new_user v w;
          s0 = ([] :: session);
          (cnt, w2) = query_count (username v) w1
      in if cnt \<noteq> 0 then
           (Inr (add_errors [''user'' \<mapsto> ''User is already registered''] vw), w2)
         else
           (let (res, w3) = call_get_token_exc raises en u (password v) w2
            in case res of
                 Inl e \<Rightarrow> (Inl e, w3)
               | Inr ok \<Rightarrow>
                   if \<not> ok then
                     (Inr (add_errors
                        [''auth'' \<mapsto> ''Cannot authenticate at wallabag server to get a token'']
                        vw),
                      w3)
                   else
                     (let (s1, w4) = session_add u s0 w3;
                          (s2, w5) = session_commit s1 w4
                      in (Inr (set_data Map.empty
                                 (add_message ''User successfully registered'' vw)),
                          w5))))"

definition post_exc ::
  "(user \<Rightarrow> string option \<Rightarrow> bool) \<Rightarrow> env \<Rightarrow> (string \<rightharpoonup> string) \<Rightarrow> world
     \<Rightarrow> (error + response) \<times> world" where
  "post_exc raises en d w =
     (let vw0 = set_data d ViewBase;
          v = gather (validate_email en) (Validator d);
          vw1 = add_errors (errors v) vw0;
          (res, w') = (if success v then register_exc raises en v vw1 w else (Inr vw1, w))
      in (case res of Inl e \<Rightarrow> Inl e | Inr vw2 \<Rightarrow> Inr (template en vw2), w'))"

text \<open>A token service whose every call raises.\<close>

definition raises_always :: "user \<Rightarrow> string option \<Rightarrow> bool" where
  "raises_always u p = True"

definition raises_never :: "user \<Rightarrow> string option \<Rightarrow> bool" where
  "raises_never u p = False"

subsection \<open>The outcomes of validate_email\<close>

text \<open>
  \<^verbatim>\<open>validate_email(address)\<close> is called with its defaults.  It returns the normalised
  address, or raises \<^verbatim>\<open>EmailSyntaxError\<close> for an address that is not well formed, or
  raises \<^verbatim>\<open>EmailUndeliverableError\<close> for a well-formed address whose domain it finds
  unable to receive mail.  Both exceptions are \<^verbatim>\<open>EmailNotValidError\<close>, which is what
  \<^verbatim>\<open>validate_emails\<close> catches: \<open>except_not_valid lib\<close> is the \<open>email_validator\<close> that the
  passes see when the library behaves as \<open>lib\<close>.
\<close>

datatype validation = Normalized string | EmailSyntaxError | EmailUndeliverableError

definition except_not_valid :: "(string \<Rightarrow> validation) \<Rightarrow> email_validator" where
  "except_not_valid lib a =
     (case lib a of
        Normalized n \<Rightarrow> Some n
      | EmailSyntaxError \<Rightarrow> None
      | EmailUndeliverableError \<Rightarrow> None)"

text \<open>
  A library run for the concrete cases: the listed addresses are returned normalised
  as listed, and no mail server is found for the domain of any other address.
\<close>

definition table_lib :: "(string \<times> string) list \<Rightarrow> string \<Rightarrow> validation" where
  "table_lib t a = (case map_of t a of Some n \<Rightarrow> Normalized n | None \<Rightarrow> EmailUndeliverableError)"

section \<open>Properties\<close>

subsection \<open>The passes in closed form\<close>

lemma data_Validator [simp]: "data (Validator d) = d"
  by (simp add: Validator_def)

lemma credentials_username_eq:
  "credentials_username (errs, v) =
     (errs ++ username_errs (data v),
      v\<lparr>username := if not_given (data v) ''username'' then username v else data v ''username''\<rparr>)"
  by (simp add: credentials_username_def username_errs_def)

lemma credentials_password_eq:
  "credentials_password (errs, v) =
     (errs ++ password_errs (data v),
      v\<lparr>password := if not_given (data v) ''password'' then password v else data v ''password''\<rparr>)"
  by (simp add: credentials_password_def password_errs_def)

lemma emails_kindle_eq:
  "emails_kindle ve (errs, v) =
     (errs ++ kindle_errs ve (data v),
      v\<lparr>kindle_email := if kindle_errs ve (data v) = Map.empty
                         then ve (the (data v ''kindleEmail'')) else kindle_email v\<rparr>)"
  by (simp add: emails_kindle_def kindle_errs_def split: option.split)

lemma emails_notify_eq:
  "emails_notify ve (errs, v) =
     (errs ++ notify_errs ve (data v),
      v\<lparr>notify_email := if notify_errs ve (data v) = Map.empty
                         then ve (the (data v ''notifyEmail'')) else notify_email v\<rparr>)"
  by (simp add: emails_notify_def notify_errs_def split: option.split)

lemma validate_credentials_eq:
  "validate_credentials v =
     (cred_errs (data v) = Map.empty,
      v\<lparr>username := if not_given (data v) ''username'' then username v else data v ''username'',
        password := if not_given (data v) ''password'' then password v else data v ''password'',
        errors := errors v ++ cred_errs (data v)\<rparr>)"
  by (simp add: validate_credentials_def finish_pass_def credentials_username_eq
      credentials_password_eq cred_errs_def)

lemma validate_emails_eq:
  "validate_emails ve v =
     (email_errs ve (data v) = Map.empty,
      v\<lparr>kindle_email := if kindle_errs ve (data v) = Map.empty
                         then ve (the (data v ''kindleEmail'')) else kindle_email v,
        notify_email := if notify_errs ve (data v) = Map.empty
                         then ve (the (data v ''notifyEmail'')) else notify_email v,
        errors := errors v ++ email_errs ve (data v)\<rparr>)"
  by (simp add: validate_emails_def finish_pass_def emails_kindle_eq emails_notify_eq email_errs_def)

lemma dom_cred_errs: "dom (cred_errs d) \<subseteq> {''username'', ''password''}"
  by (auto simp: cred_errs_def username_errs_def password_errs_def credentials_username_def
      credentials_password_def split: if_splits)

lemma dom_kindle_errs: "dom (kindle_errs ve d) \<subseteq> {''kindleEmail''}"
  by (auto simp: kindle_errs_def emails_kindle_def split: if_splits option.splits)

lemma dom_notify_errs: "dom (notify_errs ve d) \<subseteq> {''notifyEmail''}"
  by (auto simp: notify_errs_def emails_notify_def split: if_splits option.splits)

lemma dom_email_errs: "dom (email_errs ve d) \<subseteq> {''kindleEmail'', ''notifyEmail''}"
  using dom_kindle_errs [of ve d] dom_notify_errs [of ve d] by (auto simp: email_errs_def)

lemma errs_disjoint: "dom (cred_errs d) \<inter> dom (email_errs ve d) = {}"
  using dom_cred_errs [of d] dom_email_errs [of ve d] by auto

lemma errs_commute: "m ++ cred_errs d ++ email_errs ve d = m ++ email_errs ve d ++ cred_errs d"
  by (metis map_add_assoc map_add_comm errs_disjoint)

lemma passes_commute:
  "snd (validate_credentials (snd (validate_emails ve v))) =
   snd (validate_emails ve (snd (validate_credentials v)))"
  by (simp add: validate_credentials_eq validate_emails_eq errs_commute)

lemma interleave_eq: "interleave i ve v = snd (validate_emails ve (snd (validate_credentials v)))"
proof -
  consider "i = 0" | "i = 1" | "i = 2" | "i \<noteq> 0" "i \<noteq> 1" "i \<noteq> 2"
    by blast
  then show ?thesis
  proof cases
    case 1
    then show ?thesis by (simp add: interleave_def validate_emails_def)
  next
    case 2
    then show ?thesis
      by (simp add: interleave_def validate_emails_eq validate_credentials_eq emails_kindle_eq
          emails_notify_eq finish_pass_def email_errs_def)
  next
    case 3
    then show ?thesis
      by (simp add: interleave_def validate_emails_eq validate_credentials_eq emails_kindle_eq
          emails_notify_eq finish_pass_def email_errs_def errs_commute)
  next
    case 4
    then show ?thesis by (simp add: interleave_def passes_commute)
  qed
qed

lemma gather_interleave:
  "gather ve v =
     interleave (if \<not> not_given (data v) ''kindleEmail'' then 0
                 else if \<not> not_given (data v) ''notifyEmail'' then 1 else 3) ve v"
  by (simp add: gather_def interleave_def Let_def)

lemma gather_eq_ec: "gather ve v = snd (validate_emails ve (snd (validate_credentials v)))"
  by (simp only: gather_interleave interleave_eq)

lemma gather_eq_ce: "gather ve v = snd (validate_credentials (snd (validate_emails ve v)))"
  by (simp add: gather_eq_ec passes_commute)

lemma gather_Validator:
  "gather ve (Validator d) =
     \<lparr>data = d, errors = cred_errs d ++ email_errs ve d,
      username = (if not_given d ''username'' then None else d ''username''),
      password = (if not_given d ''password'' then None else d ''password''),
      kindle_email = (if kindle_errs ve d = Map.empty then ve (the (d ''kindleEmail'')) else None),
      notify_email = (if notify_errs ve d = Map.empty then ve (the (d ''notifyEmail'')) else None)\<rparr>"
  by (simp add: gather_eq_ec validate_credentials_eq validate_emails_eq) (simp add: Validator_def)

subsection \<open>The error dictionaries, key by key\<close>

lemma username_errs_eq:
  "username_errs d =
     (if not_given d ''username'' then [''username'' \<mapsto> ''Username not given or empty'']
      else Map.empty)"
  by (simp add: username_errs_def credentials_username_def)

lemma password_errs_eq:
  "password_errs d =
     (if not_given d ''password'' then [''password'' \<mapsto> ''Password not given or empty'']
      else Map.empty)"
  by (simp add: password_errs_def credentials_password_def)

lemma kindle_errs_eq:
  "kindle_errs ve d =
     (if not_given d ''kindleEmail''
      then [''kindleEmail'' \<mapsto> ''Kindle email address not given or empty'']
      else (case ve (the (d ''kindleEmail'')) of
              Some n \<Rightarrow>
                if endswith n ''@kindle.com'' \<or> endswith n ''@free.kindle.com'' then Map.empty
                else [''kindleEmail'' \<mapsto>
                        ''Given Kindle email does not end with @kindle.com or @free.kindle.com'']
            | None \<Rightarrow> [''kindleEmail'' \<mapsto> ''Kindle email is not a valid email address'']))"
  by (simp add: kindle_errs_def emails_kindle_def split: option.split)

lemma notify_errs_eq:
  "notify_errs ve d =
     (if not_given d ''notifyEmail''
      then [''notifyEmail'' \<mapsto> ''Notification email not given or empty'']
      else (case ve (the (d ''notifyEmail'')) of
              Some n \<Rightarrow> Map.empty
            | None \<Rightarrow> [''notifyEmail'' \<mapsto> ''Notification email is not a valid email address'']))"
  by (simp add: notify_errs_def emails_notify_def split: option.split)

lemma errors_username:
  "(cred_errs d ++ email_errs ve d) ''username'' =
     (if not_given d ''username'' then Some ''Username not given or empty'' else None)"
  by (simp add: cred_errs_def email_errs_def username_errs_eq password_errs_eq kindle_errs_eq
      notify_errs_eq map_add_def split: option.split)

lemma errors_password:
  "(cred_errs d ++ email_errs ve d) ''password'' =
     (if not_given d ''password'' then Some ''Password not given or empty'' else None)"
  by (simp add: cred_errs_def email_errs_def username_errs_eq password_errs_eq kindle_errs_eq
      notify_errs_eq map_add_def split: option.split)

lemma errors_kindleEmail:
  "(cred_errs d ++ email_errs ve d) ''kindleEmail'' = kindle_errs ve d ''kindleEmail''"
  by (simp add: cred_errs_def email_errs_def username_errs_eq password_errs_eq
      notify_errs_eq map_add_def split: option.split)

lemma errors_notifyEmail:
  "(cred_errs d ++ email_errs ve d) ''notifyEmail'' = notify_errs ve d ''notifyEmail''"
  by (simp add: cred_errs_def email_errs_def username_errs_eq password_errs_eq kindle_errs_eq
      map_add_def split: option.split)

lemma kindle_errs_key: "kindle_errs ve d = Map.empty \<longleftrightarrow> kindle_errs ve d ''kindleEmail'' = None"
  by (simp add: kindle_errs_eq split: option.split)

lemma notify_errs_key: "notify_errs ve d = Map.empty \<longleftrightarrow> notify_errs ve d ''notifyEmail'' = None"
  by (simp add: notify_errs_eq split: option.split)

lemma given_Some: "\<not> not_given d k \<Longrightarrow> \<exists>s. d k = Some s \<and> s \<noteq> []"
  by (simp add: not_given_def split: option.splits)

lemma kindle_errs_empty_value:
  "kindle_errs ve d = Map.empty \<Longrightarrow> \<exists>n. ve (the (d ''kindleEmail'')) = Some n"
  by (simp add: kindle_errs_eq split: if_splits option.splits)

lemma notify_errs_empty_value:
  "notify_errs ve d = Map.empty \<Longrightarrow> \<exists>n. ve (the (d ''notifyEmail'')) = Some n"
  by (simp add: notify_errs_eq split: if_splits option.splits)

subsection \<open>The handler in closed form\<close>

lemma post_eq:
  "post en d w =
     (let v = gather (validate_email en) (Validator d);
          u = \<lparr>name = username v, kindle_mail = kindle_email v, email = notify_email v\<rparr>
      in if \<not> success v then
           (template en \<lparr>v_errors = errors v, v_data = d, v_messages = []\<rparr>, w)
         else if filter (\<lambda>x. name x = username v) (rows w) \<noteq> [] then
           (template en \<lparr>v_errors = [''user'' \<mapsto> ''User is already registered''],
                          v_data = d, v_messages = []\<rparr>,
            w\<lparr>trace := trace w @ [NewUser u, QueryCount (username v)]\<rparr>)
         else if \<not> get_token en u (password v) then
           (template en
              \<lparr>v_errors = [''auth'' \<mapsto> ''Cannot authenticate at wallabag server to get a token''],
               v_data = d, v_messages = []\<rparr>,
            w\<lparr>trace := trace w @ [NewUser u, QueryCount (username v), GetToken u (password v)]\<rparr>)
         else
           (template en
              \<lparr>v_errors = Map.empty, v_data = Map.empty,
               v_messages = [''User successfully registered'']\<rparr>,
            w\<lparr>rows := rows w @ [u],
              trace := trace w @ [NewUser u, QueryCount (username v), GetToken u (password v),
                                  SessionAdd u, SessionCommit]\<rparr>))"
  by (simp add: post_def register_def Let_def success_def new_user_def query_count_def
      call_get_token_def session_add_def session_commit_def emit_def add_errors_def set_data_def
      add_message_def ViewBase_def)

lemma post_invalid:
  "\<not> success (validated en d) \<Longrightarrow>
     post en d w =
       (template en \<lparr>v_errors = errors (validated en d), v_data = d, v_messages = []\<rparr>, w)"
  by (simp add: post_eq Let_def)

lemma post_registered:
  "success (validated en d) \<Longrightarrow> fst (query_count (username (validated en d)) w) \<noteq> 0 \<Longrightarrow>
     post en d w =
       (template en \<lparr>v_errors = [''user'' \<mapsto> ''User is already registered''],
                      v_data = d, v_messages = []\<rparr>,
        w\<lparr>trace := trace w @ [NewUser (candidate en d), QueryCount (username (validated en d))]\<rparr>)"
  by (simp add: post_eq query_count_def Let_def)

lemma post_refused:
  "success (validated en d) \<Longrightarrow> fst (query_count (username (validated en d)) w) = 0 \<Longrightarrow>
   \<not> get_token en (candidate en d) (password (validated en d)) \<Longrightarrow>
     post en d w =
       (template en
          \<lparr>v_errors = [''auth'' \<mapsto> ''Cannot authenticate at wallabag server to get a token''],
           v_data = d, v_messages = []\<rparr>,
        w\<lparr>trace := trace w @ [NewUser (candidate en d), QueryCount (username (validated en d)),
                              GetToken (candidate en d) (password (validated en d))]\<rparr>)"
  by (simp add: post_eq query_count_def Let_def)

lemma post_committed:
  "success (validated en d) \<Longrightarrow> fst (query_count (username (validated en d)) w) = 0 \<Longrightarrow>
   get_token en (candidate en d) (password (validated en d)) \<Longrightarrow>
     post en d w =
       (template en
          \<lparr>v_errors = Map.empty, v_data = Map.empty,
           v_messages = [''User successfully registered'']\<rparr>,
        w\<lparr>rows := rows w @ [candidate en d],
          trace := trace w @ [NewUser (candidate en d), QueryCount (username (validated en d)),
                              GetToken (candidate en d) (password (validated en d)),
                              SessionAdd (candidate en d), SessionCommit]\<rparr>)"
  by (simp add: post_eq query_count_def Let_def)

text \<open>The response has no error exactly when the run reached the commit.\<close>

lemma post_no_error_iff:
  "r_errors (fst (post en d w)) = Map.empty \<longleftrightarrow>
     success (validated en d) \<and> fst (query_count (username (validated en d)) w) = 0 \<and>
     get_token en (candidate en d) (password (validated en d))"
  by (simp add: post_eq query_count_def template_def success_def Let_def)

subsection \<open>Evaluation on a concrete form, and the credential keys\<close>

lemmas eval_validated = gather_Validator cred_errs_def email_errs_def username_errs_eq
  password_errs_eq kindle_errs_eq notify_errs_eq not_given_def endswith_def success_def
  stub_env_def query_count_def

lemma not_given_username_fails: "not_given d ''username'' \<Longrightarrow> \<not> success (gather ve (Validator d))"
proof
  assume ng: "not_given d ''username''" and "success (gather ve (Validator d))"
  then have "(cred_errs d ++ email_errs ve d) ''username'' = None"
    by (simp add: success_def gather_Validator)
  with ng show False
    unfolding errors_username by simp
qed

lemma not_given_password_fails: "not_given d ''password'' \<Longrightarrow> \<not> success (gather ve (Validator d))"
proof
  assume ng: "not_given d ''password''" and "success (gather ve (Validator d))"
  then have "(cred_errs d ++ email_errs ve d) ''password'' = None"
    by (simp add: success_def gather_Validator)
  with ng show False
    unfolding errors_password by simp
qed

lemma validated_errors_key:
  "errors (gather ve (Validator d)) ''username'' =
     (if not_given d ''username'' then Some ''Username not given or empty'' else None)"
  "errors (gather ve (Validator d)) ''password'' =
     (if not_given d ''password'' then Some ''Password not given or empty'' else None)"
  "errors (gather ve (Validator d)) ''kindleEmail'' = kindle_errs ve d ''kindleEmail''"
  "errors (gather ve (Validator d)) ''notifyEmail'' = notify_errs ve d ''notifyEmail''"
  using errors_username [of d ve] errors_password [of d ve] errors_kindleEmail [of d ve]
    errors_notifyEmail [of d ve]
  by (simp_all add: gather_Validator)

subsection \<open>The emails pass on a fresh object\<close>

lemma emails_Validator:
  "snd (validate_emails ve (Validator d)) =
     \<lparr>data = d, errors = email_errs ve d, username = None, password = None,
      kindle_email = (if kindle_errs ve d = Map.empty then ve (the (d ''kindleEmail'')) else None),
      notify_email = (if notify_errs ve d = Map.empty then ve (the (d ''notifyEmail'')) else None)\<rparr>"
  by (simp add: validate_emails_eq) (simp add: Validator_def)

lemma email_errs_kindleEmail: "email_errs ve d ''kindleEmail'' = kindle_errs ve d ''kindleEmail''"
  by (simp add: email_errs_def notify_errs_eq map_add_def split: option.split)

lemma email_errs_notifyEmail: "email_errs ve d ''notifyEmail'' = notify_errs ve d ''notifyEmail''"
  by (simp add: email_errs_def notify_errs_eq kindle_errs_eq map_add_def split: option.split)

lemma given_iff: "d k = Some a \<Longrightarrow> not_given d k = (a = [])"
  by (simp add: not_given_def)

subsection \<open>The four ways through the handler\<close>

lemma post_cases:
  obtains (invalid) "\<not> success (validated en d)"
  | (registered) "success (validated en d)"
      "fst (query_count (username (validated en d)) w) \<noteq> 0"
  | (refused) "success (validated en d)"
      "fst (query_count (username (validated en d)) w) = 0"
      "\<not> get_token en (candidate en d) (password (validated en d))"
  | (committed) "success (validated en d)"
      "fst (query_count (username (validated en d)) w) = 0"
      "get_token en (candidate en d) (password (validated en d))"
  by blast

subsection \<open>The handler when get_token may raise, in closed form\<close>

lemma post_exc_eq:
  "post_exc raises en d w =
     (if success (validated en d) \<and> fst (query_count (username (validated en d)) w) = 0 \<and>
         raises (candidate en d) (password (validated en d))
      then (Inl TokenError,
            w\<lparr>trace := trace w @ [NewUser (candidate en d), QueryCount (username (validated en d)),
                                  GetToken (candidate en d) (password (validated en d))]\<rparr>)
      else (Inr (fst (post en d w)), snd (post en d w)))"
  by (simp add: post_exc_def post_def register_exc_def register_def Let_def new_user_def
      query_count_def call_get_token_exc_def call_get_token_def session_add_def
      session_commit_def emit_def)

lemma post_exc_returns:
  "\<not> raises (candidate en d) (password (validated en d)) \<Longrightarrow>
     post_exc raises en d w = (Inr (fst (post en d w)), snd (post en d w))"
  by (simp add: post_exc_eq)

subsection \<open>Suffixes after the at sign, with and without case\<close>

lemma lower_char_at: "lower_char c = CHR ''@'' \<longleftrightarrow> c = CHR ''@''"
proof
  assume l: "lower_char c = CHR ''@''"
  show "c = CHR ''@''"
  proof (cases "CHR ''A'' \<le> c \<and> c \<le> CHR ''Z''")
    case True
    then have r: "65 \<le> (of_char c :: nat)" "(of_char c :: nat) \<le> 90"
      by (simp_all add: less_eq_char_def)
    from True l have "char_of (of_char c + (32 :: nat)) = CHR ''@''"
      by (simp add: lower_char_def)
    then have "(of_char (char_of (of_char c + (32 :: nat)) :: char) :: nat) = of_char (CHR ''@'')"
      by simp
    then have "(of_char c + (32 :: nat)) mod 256 = 64"
      by (simp add: of_char_of)
    with r show ?thesis
      by simp
  next
    case False
    with l show ?thesis
      by (simp add: lower_char_def)
  qed
next
  assume "c = CHR ''@''"
  then show "lower_char c = CHR ''@''"
    by (simp add: lower_char_def less_eq_char_def)
qed

lemma endswith_iff: "endswith s suf \<longleftrightarrow> (\<exists>p. s = p @ suf)"
proof
  assume "endswith s suf"
  then have "s = take (length s - length suf) s @ suf"
    by (metis endswith_def append_take_drop_id)
  then show "\<exists>p. s = p @ suf" ..
next
  assume "\<exists>p. s = p @ suf"
  then show "endswith s suf"
    by (auto simp: endswith_def)
qed

lemma endswith_at:
  assumes "CHR ''@'' \<notin> set ys" and "CHR ''@'' \<notin> set zs"
  shows "endswith (xs @ CHR ''@'' # ys) (CHR ''@'' # zs) \<longleftrightarrow> ys = zs"
proof
  assume "endswith (xs @ CHR ''@'' # ys) (CHR ''@'' # zs)"
  then obtain p where "xs @ CHR ''@'' # ys = p @ CHR ''@'' # zs"
    by (auto simp: endswith_iff)
  then have "rev ys @ CHR ''@'' # rev xs = rev zs @ CHR ''@'' # rev p"
    by (metis rev_append rev.simps(2) append_assoc append_Cons append_Nil)
  then have "takeWhile (\<lambda>c. c \<noteq> CHR ''@'') (rev ys @ CHR ''@'' # rev xs) =
             takeWhile (\<lambda>c. c \<noteq> CHR ''@'') (rev zs @ CHR ''@'' # rev p)"
    by simp
  moreover have "takeWhile (\<lambda>c. c \<noteq> CHR ''@'') (rev l @ CHR ''@'' # r) = rev l"
    if "CHR ''@'' \<notin> set l" for l r :: string
  proof -
    have "takeWhile (\<lambda>c. c \<noteq> CHR ''@'') (rev l @ CHR ''@'' # r) =
          rev l @ takeWhile (\<lambda>c. c \<noteq> CHR ''@'') (CHR ''@'' # r)"
      using that by (intro takeWhile_append2) auto
    then show ?thesis
      by simp
  qed
  ultimately have "rev ys = rev zs"
    using assms by simp
  then show "ys = zs"
    by simp
next
  assume "ys = zs"
  then show "endswith (xs @ CHR ''@'' # ys) (CHR ''@'' # zs)"
    by (auto simp: endswith_iff)
qed

lemma lowered_domain:
  assumes "CHR ''@'' \<notin> set dm" and "CHR ''@'' \<notin> set suf"
    and "map lower_char suf = suf"
  shows "endswith (lp @ CHR ''@'' # map lower_char dm) (CHR ''@'' # suf) =
         ci_endswith (lp @ CHR ''@'' # dm) (CHR ''@'' # suf)"
proof -
  have l: "CHR ''@'' \<notin> set (map lower_char dm)"
  proof
    assume "CHR ''@'' \<in> set (map lower_char dm)"
    then obtain x where "x \<in> set dm" and "lower_char x = CHR ''@''"
      by auto
    then show False
      using assms(1) by (simp add: lower_char_at)
  qed
  have a: "lower_char CHR ''@'' = CHR ''@''"
    by (simp add: lower_char_at)
  have "ci_endswith (lp @ CHR ''@'' # dm) (CHR ''@'' # suf) =
        endswith (map lower_char lp @ CHR ''@'' # map lower_char dm) (CHR ''@'' # suf)"
    by (simp add: ci_endswith_def a assms(3))
  then show ?thesis
    using l assms(2) by (simp add: endswith_at)
qed

lemma suffix_lower:
  "map lower_char ''kindle.com'' = ''kindle.com''"
  "map lower_char ''free.kindle.com'' = ''free.kindle.com''"
  by code_simp+

subsection \<open>A given Kindle or notification address\<close>

lemma except_not_valid_simps:
  "lib a = Normalized n \<Longrightarrow> except_not_valid lib a = Some n"
  "lib a = EmailSyntaxError \<Longrightarrow> except_not_valid lib a = None"
  "lib a = EmailUndeliverableError \<Longrightarrow> except_not_valid lib a = None"
  by (simp_all add: except_not_valid_def)

lemma kindle_given:
  assumes "d ''kindleEmail'' = Some a" and "a \<noteq> []"
  shows "kindle_email (snd (validate_emails ve (Validator d))) =
           (case ve a of
              Some n \<Rightarrow> if endswith n ''@kindle.com'' \<or> endswith n ''@free.kindle.com''
                        then Some n else None
            | None \<Rightarrow> None)"
    and "errors (snd (validate_emails ve (Validator d))) ''kindleEmail'' =
           (case ve a of
              Some n \<Rightarrow> if endswith n ''@kindle.com'' \<or> endswith n ''@free.kindle.com''
                        then None
                        else Some ''Given Kindle email does not end with @kindle.com or @free.kindle.com''
            | None \<Rightarrow> Some ''Kindle email is not a valid email address'')"
proof -
  have g: "\<not> not_given d ''kindleEmail''"
    using assms by (simp add: given_iff)
  have k: "kindle_errs ve d =
      (case ve a of
         Some n \<Rightarrow> if endswith n ''@kindle.com'' \<or> endswith n ''@free.kindle.com''
                   then Map.empty
                   else [''kindleEmail'' \<mapsto>
                     ''Given Kindle email does not end with @kindle.com or @free.kindle.com'']
       | None \<Rightarrow> [''kindleEmail'' \<mapsto> ''Kindle email is not a valid email address''])"
    using assms g by (simp add: kindle_errs_eq)
  show "kindle_email (snd (validate_emails ve (Validator d))) =
           (case ve a of
              Some n \<Rightarrow> if endswith n ''@kindle.com'' \<or> endswith n ''@free.kindle.com''
                        then Some n else None
            | None \<Rightarrow> None)"
    using assms by (simp add: emails_Validator k split: option.split)
  show "errors (snd (validate_emails ve (Validator d))) ''kindleEmail'' =
           (case ve a of
              Some n \<Rightarrow> if endswith n ''@kindle.com'' \<or> endswith n ''@free.kindle.com''
                        then None
                        else Some ''Given Kindle email does not end with @kindle.com or @free.kindle.com''
            | None \<Rightarrow> Some ''Kindle email is not a valid email address'')"
    by (simp add: emails_Validator email_errs_kindleEmail k split: option.split)
qed

lemma notify_given:
  assumes "d ''notifyEmail'' = Some b" and "b \<noteq> []"
  shows "notify_email (gather ve (Validator d)) = ve b"
proof -
  have g: "\<not> not_given d ''notifyEmail''"
    using assms by (simp add: given_iff)
  have "notify_errs ve d = Map.empty \<longleftrightarrow> ve b \<noteq> None"
    using assms g by (simp add: notify_errs_eq split: option.split)
  then show ?thesis
    using assms by (auto simp: gather_Validator)
qed

lemma kindle_given_gather:
  assumes "d ''kindleEmail'' = Some a" and "a \<noteq> []" and "ve a = Some n"
  shows "kindle_email (gather ve (Validator d)) =
           (if endswith n ''@kindle.com'' \<or> endswith n ''@free.kindle.com''
            then Some n else None)"
proof -
  have g: "\<not> not_given d ''kindleEmail''"
    using assms by (simp add: given_iff)
  have k: "kindle_errs ve d =
      (if endswith n ''@kindle.com'' \<or> endswith n ''@free.kindle.com'' then Map.empty
       else [''kindleEmail'' \<mapsto>
               ''Given Kindle email does not end with @kindle.com or @free.kindle.com''])"
    using assms g by (simp add: kindle_errs_eq)
  show ?thesis
    using assms by (simp add: gather_Validator k)
qed

lemma success_fields:
  assumes "success (gather ve (Validator d))"
  shows "username (gather ve (Validator d)) = d ''username''"
    and "\<not> not_given d ''kindleEmail''"
    and "kindle_email (gather ve (Validator d)) = ve (the (d ''kindleEmail''))"
    and "\<not> not_given d ''notifyEmail''"
    and "notify_email (gather ve (Validator d)) = ve (the (d ''notifyEmail''))"
proof -
  from assms have e: "errors (gather ve (Validator d)) k = None" for k
    by (simp add: success_def)
  from assms show "username (gather ve (Validator d)) = d ''username''"
    using not_given_username_fails [of d ve] by (auto simp: gather_Validator)
  have ke: "kindle_errs ve d ''kindleEmail'' = None"
    using e [of "''kindleEmail''"] by (simp add: validated_errors_key)
  then show "\<not> not_given d ''kindleEmail''"
    by (auto simp: kindle_errs_eq)
  from ke show "kindle_email (gather ve (Validator d)) = ve (the (d ''kindleEmail''))"
    by (simp add: gather_Validator kindle_errs_key)
  have ne: "notify_errs ve d ''notifyEmail'' = None"
    using e [of "''notifyEmail''"] by (simp add: validated_errors_key)
  then show "\<not> not_given d ''notifyEmail''"
    by (auto simp: notify_errs_eq)
  from ne show "notify_email (gather ve (Validator d)) = ve (the (d ''notifyEmail''))"
    by (simp add: gather_Validator notify_errs_key)
qed

section \<open>The claims\<close>

text \<open>
  C4.  After both validation passes have run on a fresh \<^verbatim>\<open>Validator\<close>, each of the
  four field names is a key of \<^verbatim>\<open>errors\<close> exactly when the attribute holding the
  typed value is \<^verbatim>\<open>None\<close>, and \<^verbatim>\<open>success\<close> holds exactly when \<^verbatim>\<open>errors\<close> has no key.
\<close>

theorem validator_key_iff_value_absent:
  "(''username'' \<in> dom (errors (gather ve (Validator d)))) = (username (gather ve (Validator d)) = None) \<and>
   (''password'' \<in> dom (errors (gather ve (Validator d)))) = (password (gather ve (Validator d)) = None) \<and>
   (''kindleEmail'' \<in> dom (errors (gather ve (Validator d)))) = (kindle_email (gather ve (Validator d)) = None) \<and>
   (''notifyEmail'' \<in> dom (errors (gather ve (Validator d)))) = (notify_email (gather ve (Validator d)) = None) \<and>
   success (gather ve (Validator d)) = (dom (errors (gather ve (Validator d))) = {})"
proof -
  have u: "(''username'' \<in> dom (cred_errs d ++ email_errs ve d)) = (not_given d ''username'')"
    unfolding domIff errors_username by simp
  have p: "(''password'' \<in> dom (cred_errs d ++ email_errs ve d)) = (not_given d ''password'')"
    unfolding domIff errors_password by simp
  have k: "(''kindleEmail'' \<in> dom (cred_errs d ++ email_errs ve d)) = (kindle_errs ve d \<noteq> Map.empty)"
    unfolding domIff errors_kindleEmail kindle_errs_key by simp
  have n: "(''notifyEmail'' \<in> dom (cred_errs d ++ email_errs ve d)) = (notify_errs ve d \<noteq> Map.empty)"
    unfolding domIff errors_notifyEmail notify_errs_key by simp
  have gu: "\<not> not_given d ''username'' \<Longrightarrow> d ''username'' \<noteq> None"
    using given_Some [of d "''username''"] by auto
  have gp: "\<not> not_given d ''password'' \<Longrightarrow> d ''password'' \<noteq> None"
    using given_Some [of d "''password''"] by auto
  have gk: "kindle_errs ve d = Map.empty \<Longrightarrow> ve (the (d ''kindleEmail'')) \<noteq> None"
    using kindle_errs_empty_value [of ve d] by auto
  have gn: "notify_errs ve d = Map.empty \<Longrightarrow> ve (the (d ''notifyEmail'')) \<noteq> None"
    using notify_errs_empty_value [of ve d] by auto
  have E: "errors (gather ve (Validator d)) = cred_errs d ++ email_errs ve d"
    by (simp add: gather_Validator)
  have c1: "(''username'' \<in> dom (errors (gather ve (Validator d)))) =
              (username (gather ve (Validator d)) = None)"
    unfolding E u using gu by (simp add: gather_Validator)
  have c2: "(''password'' \<in> dom (errors (gather ve (Validator d)))) =
              (password (gather ve (Validator d)) = None)"
    unfolding E p using gp by (simp add: gather_Validator)
  have c3: "(''kindleEmail'' \<in> dom (errors (gather ve (Validator d)))) =
              (kindle_email (gather ve (Validator d)) = None)"
    unfolding E k using gk by (simp add: gather_Validator)
  have c4: "(''notifyEmail'' \<in> dom (errors (gather ve (Validator d)))) =
              (notify_email (gather ve (Validator d)) = None)"
    unfolding E n using gn by (simp add: gather_Validator)
  have c5: "success (gather ve (Validator d)) = (dom (errors (gather ve (Validator d))) = {})"
    by (simp add: success_def)
  from c1 c2 c3 c4 c5 show ?thesis
    by blast
qed

text \<open>
  C9.  The two validation passes commute.  Wherever \<^verbatim>\<open>validate_credentials\<close> runs
  among the pieces of \<^verbatim>\<open>validate_emails\<close> (before it, between its pieces, after it),
  the resulting object is the same, typed values and \<^verbatim>\<open>errors\<close> alike; the schedule
  of \<^verbatim>\<open>asyncio.gather\<close> is one of these; and on a fresh \<^verbatim>\<open>Validator\<close> the merged
  \<^verbatim>\<open>errors\<close> are the errors of the one pass updated with the errors of the other, in
  either order, so neither pass hides an error of the other.
\<close>

theorem validation_passes_commute:
  "interleave i ve v = interleave j ve v \<and>
   gather ve v = interleave i ve v \<and>
   snd (validate_credentials (snd (validate_emails ve v))) =
     snd (validate_emails ve (snd (validate_credentials v))) \<and>
   errors (gather ve (Validator d)) =
     errors (snd (validate_credentials (Validator d))) ++ errors (snd (validate_emails ve (Validator d))) \<and>
   errors (gather ve (Validator d)) =
     errors (snd (validate_emails ve (Validator d))) ++ errors (snd (validate_credentials (Validator d)))"
proof -
  have a: "interleave i ve v = interleave j ve v"
    by (simp only: interleave_eq)
  have b: "gather ve v = interleave i ve v"
    by (simp only: interleave_eq gather_eq_ec)
  have e0: "errors (Validator d) = Map.empty"
    by (simp add: Validator_def)
  have c: "errors (snd (validate_credentials (Validator d))) = cred_errs d"
    by (simp add: validate_credentials_eq e0)
  have e: "errors (snd (validate_emails ve (Validator d))) = email_errs ve d"
    by (simp add: validate_emails_eq e0)
  have g: "errors (gather ve (Validator d)) = cred_errs d ++ email_errs ve d"
    by (simp add: gather_Validator)
  have sw: "cred_errs d ++ email_errs ve d = email_errs ve d ++ cred_errs d"
    using errs_commute [of Map.empty d ve] by simp
  show ?thesis
    using a b passes_commute [of ve v] by (simp add: c e g sw)
qed

text \<open>
  C2.  When validation is not successful (in particular when the username or the
  password is missing or empty), the response carries the errors of the validator,
  which are not empty, no message, and the world is unchanged: no \<^verbatim>\<open>User\<close> is
  constructed, no query, no \<^verbatim>\<open>get_token\<close>, no \<^verbatim>\<open>session.add\<close>, no commit.  A missing or
  empty username or password is reported under its own key.
\<close>

theorem failed_validation_makes_no_call:
  assumes "\<not> success (validated en d) \<or> not_given d ''username'' \<or> not_given d ''password''"
  shows "\<not> success (validated en d) \<and>
         r_errors (fst (post en d w)) = errors (validated en d) \<and>
         r_errors (fst (post en d w)) \<noteq> Map.empty \<and>
         r_messages (fst (post en d w)) = [] \<and>
         snd (post en d w) = w \<and>
         (not_given d ''username'' \<longrightarrow>
            r_errors (fst (post en d w)) ''username'' = Some ''Username not given or empty'') \<and>
         (not_given d ''password'' \<longrightarrow>
            r_errors (fst (post en d w)) ''password'' = Some ''Password not given or empty'')"
proof -
  from assms have f: "\<not> success (validated en d)"
    using not_given_username_fails [of d "validate_email en"]
      not_given_password_fails [of d "validate_email en"] by blast
  then have p: "post en d w =
      (template en \<lparr>v_errors = errors (validated en d), v_data = d, v_messages = []\<rparr>, w)"
    by (rule post_invalid)
  have e: "r_errors (fst (post en d w)) = errors (validated en d)"
    by (simp add: p template_def)
  have ne: "errors (validated en d) \<noteq> Map.empty"
    using f by (simp add: success_def)
  show ?thesis
    using f ne by (simp add: e validated_errors_key) (simp add: p template_def)
qed

theorem failed_validation_makes_no_call_witness:
  "r_errors (fst (post (stub_env Some True)
      [''username'' \<mapsto> [], ''kindleEmail'' \<mapsto> ''alice@kindle.com'',
       ''notifyEmail'' \<mapsto> ''alice@example.com'']
      \<lparr>rows = [], trace = []\<rparr>)) ''username'' = Some ''Username not given or empty'' \<and>
   r_errors (fst (post (stub_env Some True)
      [''username'' \<mapsto> [], ''kindleEmail'' \<mapsto> ''alice@kindle.com'',
       ''notifyEmail'' \<mapsto> ''alice@example.com'']
      \<lparr>rows = [], trace = []\<rparr>)) ''password'' = Some ''Password not given or empty'' \<and>
   snd (post (stub_env Some True)
      [''username'' \<mapsto> [], ''kindleEmail'' \<mapsto> ''alice@kindle.com'',
       ''notifyEmail'' \<mapsto> ''alice@example.com'']
      \<lparr>rows = [], trace = []\<rparr>) = \<lparr>rows = [], trace = []\<rparr>"
proof -
  have u: "not_given [''username'' \<mapsto> [], ''kindleEmail'' \<mapsto> ''alice@kindle.com'',
        ''notifyEmail'' \<mapsto> ''alice@example.com''] ''username''"
    by (simp add: not_given_def)
  have p: "not_given [''username'' \<mapsto> [], ''kindleEmail'' \<mapsto> ''alice@kindle.com'',
        ''notifyEmail'' \<mapsto> ''alice@example.com''] ''password''"
    by (simp add: not_given_def)
  from u p show ?thesis
    using failed_validation_makes_no_call [of "stub_env Some True"
      "[''username'' \<mapsto> [], ''kindleEmail'' \<mapsto> ''alice@kindle.com'',
        ''notifyEmail'' \<mapsto> ''alice@example.com'']"
      "\<lparr>rows = [], trace = []\<rparr>"]
    by blast
qed

text \<open>
  C3.  When validation succeeds and a persisted row has the validated username, the
  error mapping is exactly the key \<^verbatim>\<open>user\<close> with "User is already registered", the
  calls made are the construction of the \<^verbatim>\<open>User\<close> and the count query only, so
  \<^verbatim>\<open>get_token\<close> and \<^verbatim>\<open>session.add\<close> are not called and the rows are unchanged.  In
  particular a request that follows a successful registration and validates with
  the same username ends this way.
\<close>

theorem registered_username_stops_before_issuance:
  "(success (validated en d) \<and> fst (query_count (username (validated en d)) w) \<noteq> 0 \<longrightarrow>
      r_errors (fst (post en d w)) = [''user'' \<mapsto> ''User is already registered''] \<and>
      r_messages (fst (post en d w)) = [] \<and>
      trace (snd (post en d w)) =
        trace w @ [NewUser (candidate en d), QueryCount (username (validated en d))] \<and>
      token_calls (snd (post en d w)) = token_calls w \<and>
      add_calls (snd (post en d w)) = add_calls w \<and>
      rows (snd (post en d w)) = rows w) \<and>
   (r_errors (fst (post en d w)) = Map.empty \<and> success (validated en' d') \<and>
    username (validated en' d') = username (validated en d) \<longrightarrow>
      r_errors (fst (post en' d' (snd (post en d w)))) =
        [''user'' \<mapsto> ''User is already registered''] \<and>
      r_messages (fst (post en' d' (snd (post en d w)))) = [] \<and>
      token_calls (snd (post en' d' (snd (post en d w)))) = token_calls (snd (post en d w)) \<and>
      add_calls (snd (post en' d' (snd (post en d w)))) = add_calls (snd (post en d w)) \<and>
      rows (snd (post en' d' (snd (post en d w)))) = rows (snd (post en d w)))"
proof -
  have one: "r_errors (fst (post en d w)) = [''user'' \<mapsto> ''User is already registered''] \<and>
      r_messages (fst (post en d w)) = [] \<and>
      trace (snd (post en d w)) =
        trace w @ [NewUser (candidate en d), QueryCount (username (validated en d))] \<and>
      token_calls (snd (post en d w)) = token_calls w \<and>
      add_calls (snd (post en d w)) = add_calls w \<and>
      rows (snd (post en d w)) = rows w"
    if "success (validated en d)" "fst (query_count (username (validated en d)) w) \<noteq> 0"
    for en d w
    using that by (simp add: post_registered template_def token_calls_def add_calls_def)
  have two: "fst (query_count (username (validated en' d')) (snd (post en d w))) \<noteq> 0"
    if ok: "r_errors (fst (post en d w)) = Map.empty"
      and same: "username (validated en' d') = username (validated en d)"
  proof -
    from ok have c: "success (validated en d)"
      "fst (query_count (username (validated en d)) w) = 0"
      "get_token en (candidate en d) (password (validated en d))"
      by (simp_all add: post_no_error_iff)
    have "rows (snd (post en d w)) = rows w @ [candidate en d]"
      by (simp add: post_committed [OF c])
    then show ?thesis
      by (simp add: query_count_def same)
  qed
  show ?thesis
    using one [of en d w] one [of en' d' "snd (post en d w)"] two by blast
qed

theorem registered_username_stops_before_issuance_witness:
  "r_errors (fst (post (stub_env Some True)
      [''username'' \<mapsto> ''alice'', ''password'' \<mapsto> ''secret'',
       ''kindleEmail'' \<mapsto> ''alice@kindle.com'', ''notifyEmail'' \<mapsto> ''alice@example.com'']
      \<lparr>rows = [\<lparr>name = Some ''alice'', kindle_mail = Some ''a@free.kindle.com'',
                  email = Some ''a@example.com''\<rparr>], trace = []\<rparr>)) =
     [''user'' \<mapsto> ''User is already registered''] \<and>
   r_errors (fst (post (stub_env Some True)
      [''username'' \<mapsto> ''alice'', ''password'' \<mapsto> ''secret'',
       ''kindleEmail'' \<mapsto> ''alice@kindle.com'', ''notifyEmail'' \<mapsto> ''alice@example.com'']
      (snd (post (stub_env Some True)
         [''username'' \<mapsto> ''alice'', ''password'' \<mapsto> ''secret'',
          ''kindleEmail'' \<mapsto> ''alice@kindle.com'', ''notifyEmail'' \<mapsto> ''alice@example.com'']
         \<lparr>rows = [], trace = []\<rparr>)))) =
     [''user'' \<mapsto> ''User is already registered'']"
proof -
  let ?en = "stub_env Some True"
  let ?d = "[''username'' \<mapsto> ''alice'', ''password'' \<mapsto> ''secret'',
       ''kindleEmail'' \<mapsto> ''alice@kindle.com'', ''notifyEmail'' \<mapsto> ''alice@example.com'']"
  let ?w1 = "\<lparr>rows = [\<lparr>name = Some ''alice'', kindle_mail = Some ''a@free.kindle.com'',
                  email = Some ''a@example.com''\<rparr>], trace = []\<rparr>"
  let ?w0 = "\<lparr>rows = [], trace = []\<rparr>"
  have s: "success (validated ?en ?d)"
    by (simp add: eval_validated)
  have u: "username (validated ?en ?d) = Some ''alice''"
    by (simp add: eval_validated)
  have c1: "fst (query_count (username (validated ?en ?d)) ?w1) \<noteq> 0"
    unfolding u by (simp add: query_count_def)
  have c0: "fst (query_count (username (validated ?en ?d)) ?w0) = 0"
    by (simp add: query_count_def)
  have t: "get_token ?en (candidate ?en ?d) (password (validated ?en ?d))"
    by (simp add: stub_env_def)
  have ok: "r_errors (fst (post ?en ?d ?w0)) = Map.empty"
    unfolding post_no_error_iff using s c0 t by blast
  from s c1 ok show ?thesis
    using registered_username_stops_before_issuance [of ?en ?d ?w1 ?en ?d]
      registered_username_stops_before_issuance [of ?en ?d ?w0 ?en ?d]
    by blast
qed

text \<open>
  C6.  A \<^verbatim>\<open>kindleEmail\<close> or \<^verbatim>\<open>notifyEmail\<close> that is present, not empty and rejected by
  the syntax validator gets, under its own key, the message "... is not a valid email
  address"; the key does not carry the domain message, and no typed value is stored.
\<close>

theorem invalid_email_reports_validity_error:
  "(d ''kindleEmail'' = Some a \<and> a \<noteq> [] \<and> ve a = None \<longrightarrow>
      errors (snd (validate_emails ve (Validator d))) ''kindleEmail'' =
        Some ''Kindle email is not a valid email address'' \<and>
      errors (snd (validate_emails ve (Validator d))) ''kindleEmail'' \<noteq>
        Some ''Given Kindle email does not end with @kindle.com or @free.kindle.com'' \<and>
      kindle_email (snd (validate_emails ve (Validator d))) = None) \<and>
   (d ''notifyEmail'' = Some b \<and> b \<noteq> [] \<and> ve b = None \<longrightarrow>
      errors (snd (validate_emails ve (Validator d))) ''notifyEmail'' =
        Some ''Notification email is not a valid email address'' \<and>
      errors (snd (validate_emails ve (Validator d))) ''notifyEmail'' \<noteq>
        Some ''Given Kindle email does not end with @kindle.com or @free.kindle.com'' \<and>
      notify_email (snd (validate_emails ve (Validator d))) = None)"
proof -
  have k: "kindle_errs ve d = [''kindleEmail'' \<mapsto> ''Kindle email is not a valid email address'']"
    if "d ''kindleEmail'' = Some a" "a \<noteq> []" "ve a = None"
    using that by (simp add: kindle_errs_eq given_iff)
  have n: "notify_errs ve d =
      [''notifyEmail'' \<mapsto> ''Notification email is not a valid email address'']"
    if "d ''notifyEmail'' = Some b" "b \<noteq> []" "ve b = None"
    using that by (simp add: notify_errs_eq given_iff)
  show ?thesis
    using k n by (auto simp: emails_Validator email_errs_kindleEmail email_errs_notifyEmail)
qed

theorem invalid_email_reports_validity_error_witness:
  "errors (snd (validate_emails Map.empty
      (Validator [''kindleEmail'' \<mapsto> ''reader.kindle.com'', ''notifyEmail'' \<mapsto> ''reader at home'']))) ''kindleEmail'' =
     Some ''Kindle email is not a valid email address'' \<and>
   errors (snd (validate_emails Map.empty
      (Validator [''kindleEmail'' \<mapsto> ''reader.kindle.com'', ''notifyEmail'' \<mapsto> ''reader at home'']))) ''notifyEmail'' =
     Some ''Notification email is not a valid email address''"
  using invalid_email_reports_validity_error
    [of "[''kindleEmail'' \<mapsto> ''reader.kindle.com'', ''notifyEmail'' \<mapsto> ''reader at home'']"
        "''reader.kindle.com''" Map.empty "''reader at home''"]
  by simp

text \<open>
  C7, as the code has it.  A response with a non-empty error mapping carries the
  submitted form as it was received, every field of it, and no message, and the rows
  are unchanged; a response with an empty error mapping carries the message "User
  successfully registered" and an empty form, and the constructed \<^verbatim>\<open>User\<close> is the one
  new row.
\<close>

theorem response_is_errors_with_data_or_message:
  "(r_errors (fst (post en d w)) \<noteq> Map.empty \<longrightarrow>
      r_data (fst (post en d w)) = d \<and> r_messages (fst (post en d w)) = [] \<and>
      rows (snd (post en d w)) = rows w) \<and>
   (r_errors (fst (post en d w)) = Map.empty \<longrightarrow>
      r_data (fst (post en d w)) = Map.empty \<and>
      r_messages (fst (post en d w)) = [''User successfully registered''] \<and>
      rows (snd (post en d w)) = rows w @ [candidate en d])"
proof (cases rule: post_cases [where en = en and d = d and w = w])
  case invalid
  then show ?thesis
    by (simp add: post_invalid template_def success_def)
next
  case registered
  then show ?thesis
    by (simp add: post_registered template_def)
next
  case refused
  then show ?thesis
    by (simp add: post_refused template_def)
next
  case committed
  then show ?thesis
    by (simp add: post_committed template_def)
qed

theorem response_is_errors_with_data_or_message_witness:
  "r_data (fst (post (stub_env Some True)
      [''username'' \<mapsto> ''alice'', ''password'' \<mapsto> ''secret'']
      \<lparr>rows = [], trace = []\<rparr>)) =
     [''username'' \<mapsto> ''alice'', ''password'' \<mapsto> ''secret''] \<and>
   r_messages (fst (post (stub_env Some True)
      [''username'' \<mapsto> ''alice'', ''password'' \<mapsto> ''secret'',
       ''kindleEmail'' \<mapsto> ''alice@kindle.com'', ''notifyEmail'' \<mapsto> ''alice@example.com'']
      \<lparr>rows = [], trace = []\<rparr>)) = [''User successfully registered''] \<and>
   r_data (fst (post (stub_env Some True)
      [''username'' \<mapsto> ''alice'', ''password'' \<mapsto> ''secret'',
       ''kindleEmail'' \<mapsto> ''alice@kindle.com'', ''notifyEmail'' \<mapsto> ''alice@example.com'']
      \<lparr>rows = [], trace = []\<rparr>)) = Map.empty"
proof -
  let ?en = "stub_env Some True"
  let ?bad = "[''username'' \<mapsto> ''alice'', ''password'' \<mapsto> ''secret'']"
  let ?good = "[''username'' \<mapsto> ''alice'', ''password'' \<mapsto> ''secret'',
       ''kindleEmail'' \<mapsto> ''alice@kindle.com'', ''notifyEmail'' \<mapsto> ''alice@example.com'']"
  let ?w0 = "\<lparr>rows = [], trace = []\<rparr>"
  have "\<not> success (validated ?en ?bad)"
    by (simp add: eval_validated)
  then have bad: "r_errors (fst (post ?en ?bad ?w0)) \<noteq> Map.empty"
    by (simp add: post_no_error_iff)
  have "success (validated ?en ?good)"
    "fst (query_count (username (validated ?en ?good)) ?w0) = 0"
    "get_token ?en (candidate ?en ?good) (password (validated ?en ?good))"
    by (simp_all add: eval_validated)
  then have good: "r_errors (fst (post ?en ?good ?w0)) = Map.empty"
    unfolding post_no_error_iff by blast
  from bad good show ?thesis
    using response_is_errors_with_data_or_message [of ?en ?bad ?w0]
      response_is_errors_with_data_or_message [of ?en ?good ?w0]
    by blast
qed

text \<open>
  C7, as the claim states it, fails: the form of a failed request is handed to the
  template with its password.  Here the two email fields are missing, the error
  mapping is not empty, and the \<^verbatim>\<open>data\<close> of the response maps \<^verbatim>\<open>password\<close> to the
  submitted secret.
\<close>

theorem failed_response_keeps_password_counterexample:
  "r_errors (fst (post (stub_env Some True)
      [''username'' \<mapsto> ''alice'', ''password'' \<mapsto> ''secret'']
      \<lparr>rows = [], trace = []\<rparr>)) \<noteq> Map.empty \<and>
   r_data (fst (post (stub_env Some True)
      [''username'' \<mapsto> ''alice'', ''password'' \<mapsto> ''secret'']
      \<lparr>rows = [], trace = []\<rparr>)) ''password'' = Some ''secret''"
proof -
  have f: "\<not> success (validated (stub_env Some True)
      [''username'' \<mapsto> ''alice'', ''password'' \<mapsto> ''secret''])"
    by (simp add: eval_validated)
  show ?thesis
    using f by (simp add: post_invalid template_def success_def)
qed

text \<open>
  C8, as the code has it.  The \<^verbatim>\<open>User\<close> is constructed exactly when validation has
  succeeded, before the count query and before \<^verbatim>\<open>get_token\<close>, which receives it; it
  is added to the session and committed only after the count was zero and
  \<^verbatim>\<open>get_token\<close> returned a true value, at most once in a request; the rows that were
  there stay as they are, in place, and at most the constructed \<^verbatim>\<open>User\<close> is appended.
\<close>

theorem user_constructed_before_token_inserted_after:
  "trace (snd (post en d w)) =
     trace w @
     (if \<not> success (validated en d) then []
      else [NewUser (candidate en d), QueryCount (username (validated en d))] @
           (if fst (query_count (username (validated en d)) w) \<noteq> 0 then []
            else [GetToken (candidate en d) (password (validated en d))] @
                 (if \<not> get_token en (candidate en d) (password (validated en d)) then []
                  else [SessionAdd (candidate en d), SessionCommit]))) \<and>
   rows (snd (post en d w)) =
     rows w @
     (if success (validated en d) \<and> fst (query_count (username (validated en d)) w) = 0 \<and>
         get_token en (candidate en d) (password (validated en d))
      then [candidate en d] else []) \<and>
   add_calls (snd (post en d w)) \<le> add_calls w + 1"
proof (cases rule: post_cases [where en = en and d = d and w = w])
  case invalid
  then show ?thesis
    by (simp add: post_invalid)
next
  case registered
  then show ?thesis
    by (simp add: post_registered add_calls_def)
next
  case refused
  then show ?thesis
    by (simp add: post_refused add_calls_def)
next
  case committed
  then show ?thesis
    by (simp add: post_committed add_calls_def)
qed

text \<open>
  C8, as the claim states it, fails: the \<^verbatim>\<open>User\<close> is constructed although no token
  has been obtained.  With a token service that refuses, the first call of the run
  is the construction of the \<^verbatim>\<open>User\<close>, and \<^verbatim>\<open>get_token\<close>, called with that object,
  returns false.
\<close>

theorem user_constructed_without_token_counterexample:
  "trace (snd (post (stub_env Some False)
      [''username'' \<mapsto> ''alice'', ''password'' \<mapsto> ''secret'',
       ''kindleEmail'' \<mapsto> ''alice@kindle.com'', ''notifyEmail'' \<mapsto> ''alice@example.com'']
      \<lparr>rows = [], trace = []\<rparr>)) =
     [NewUser \<lparr>name = Some ''alice'', kindle_mail = Some ''alice@kindle.com'',
               email = Some ''alice@example.com''\<rparr>,
      QueryCount (Some ''alice''),
      GetToken \<lparr>name = Some ''alice'', kindle_mail = Some ''alice@kindle.com'',
                email = Some ''alice@example.com''\<rparr> (Some ''secret'')] \<and>
   get_token (stub_env Some False)
      \<lparr>name = Some ''alice'', kindle_mail = Some ''alice@kindle.com'',
        email = Some ''alice@example.com''\<rparr> (Some ''secret'') = False"
  by (simp add: post_eq eval_validated Let_def)

text \<open>
  C1, as the code has it.  The request passes validation and no persisted row has
  the validated username.  If \<^verbatim>\<open>get_token\<close> returns a false value, the error mapping
  of the response is exactly the key \<^verbatim>\<open>auth\<close> with its message and there is no
  message.  If \<^verbatim>\<open>get_token\<close> raises, the exception leaves the handler: there is no
  response and no error key is added.  In both cases the rows are unchanged,
  \<^verbatim>\<open>session.add\<close> is not called, and the calls made are the construction of the
  \<^verbatim>\<open>User\<close>, the count query and \<^verbatim>\<open>get_token\<close>, in this order.
\<close>

theorem issuance_failure_discards_user:
  assumes "success (validated en d)"
    and "fst (query_count (username (validated en d)) w) = 0"
    and "raises (candidate en d) (password (validated en d)) \<or>
         \<not> get_token en (candidate en d) (password (validated en d))"
  shows "(if raises (candidate en d) (password (validated en d))
          then fst (post_exc raises en d w) = Inl TokenError
          else fst (post_exc raises en d w) = Inr (fst (post en d w)) \<and>
               r_errors (fst (post en d w)) =
                 [''auth'' \<mapsto> ''Cannot authenticate at wallabag server to get a token''] \<and>
               dom (r_errors (fst (post en d w))) = {''auth''} \<and>
               r_messages (fst (post en d w)) = []) \<and>
         rows (snd (post_exc raises en d w)) = rows w \<and>
         add_calls (snd (post_exc raises en d w)) = add_calls w \<and>
         trace (snd (post_exc raises en d w)) =
           trace w @ [NewUser (candidate en d), QueryCount (username (validated en d)),
                      GetToken (candidate en d) (password (validated en d))]"
proof (cases "raises (candidate en d) (password (validated en d))")
  case True
  with assms show ?thesis
    by (simp add: post_exc_eq add_calls_def)
next
  case False
  with assms have "\<not> get_token en (candidate en d) (password (validated en d))"
    by blast
  with assms False show ?thesis
    by (simp add: post_exc_eq post_refused template_def add_calls_def)
qed

theorem issuance_failure_discards_user_witness:
  "fst (post_exc raises_always (stub_env Some True)
      [''username'' \<mapsto> ''alice'', ''password'' \<mapsto> ''secret'',
       ''kindleEmail'' \<mapsto> ''alice@kindle.com'', ''notifyEmail'' \<mapsto> ''alice@example.com'']
      \<lparr>rows = [], trace = []\<rparr>) = Inl TokenError \<and>
   r_errors (fst (post (stub_env Some False)
      [''username'' \<mapsto> ''alice'', ''password'' \<mapsto> ''secret'',
       ''kindleEmail'' \<mapsto> ''alice@kindle.com'', ''notifyEmail'' \<mapsto> ''alice@example.com'']
      \<lparr>rows = [], trace = []\<rparr>)) =
     [''auth'' \<mapsto> ''Cannot authenticate at wallabag server to get a token''] \<and>
   rows (snd (post_exc raises_never (stub_env Some False)
      [''username'' \<mapsto> ''alice'', ''password'' \<mapsto> ''secret'',
       ''kindleEmail'' \<mapsto> ''alice@kindle.com'', ''notifyEmail'' \<mapsto> ''alice@example.com'']
      \<lparr>rows = [], trace = []\<rparr>)) = []"
  using issuance_failure_discards_user [of "stub_env Some True"
      "[''username'' \<mapsto> ''alice'', ''password'' \<mapsto> ''secret'',
        ''kindleEmail'' \<mapsto> ''alice@kindle.com'', ''notifyEmail'' \<mapsto> ''alice@example.com'']"
      "\<lparr>rows = [], trace = []\<rparr>" raises_always]
    issuance_failure_discards_user [of "stub_env Some False"
      "[''username'' \<mapsto> ''alice'', ''password'' \<mapsto> ''secret'',
        ''kindleEmail'' \<mapsto> ''alice@kindle.com'', ''notifyEmail'' \<mapsto> ''alice@example.com'']"
      "\<lparr>rows = [], trace = []\<rparr>" raises_never]
  by (simp add: eval_validated raises_always_def raises_never_def)

text \<open>
  C1, as the claim states it, fails for a token service that fails by raising: the
  request passes validation, the username is new, and the run ends with the
  exception, not with a response whose error mapping has the key \<^verbatim>\<open>auth\<close>.
\<close>

theorem issuer_raises_no_auth_key_counterexample:
  "success (validated (stub_env Some True)
      [''username'' \<mapsto> ''alice'', ''password'' \<mapsto> ''secret'',
       ''kindleEmail'' \<mapsto> ''alice@kindle.com'', ''notifyEmail'' \<mapsto> ''alice@example.com'']) \<and>
   fst (query_count (Some ''alice'') \<lparr>rows = [], trace = []\<rparr>) = 0 \<and>
   fst (post_exc raises_always (stub_env Some True)
      [''username'' \<mapsto> ''alice'', ''password'' \<mapsto> ''secret'',
       ''kindleEmail'' \<mapsto> ''alice@kindle.com'', ''notifyEmail'' \<mapsto> ''alice@example.com'']
      \<lparr>rows = [], trace = []\<rparr>) = Inl TokenError"
  by (simp add: post_exc_eq eval_validated raises_always_def)

text \<open>
  C5, as the code has it.  Let \<^verbatim>\<open>kindleEmail\<close> be present and not empty.  When
  \<^verbatim>\<open>validate_email\<close> returns the normalised address \<open>n\<close>, the pass stores \<open>n\<close> as the
  Kindle address and records no error for the key exactly when \<open>n\<close> ends with
  \<^verbatim>\<open>@kindle.com\<close> or \<^verbatim>\<open>@free.kindle.com\<close> (\<^verbatim>\<open>str.endswith\<close> on the normalised address);
  otherwise it stores nothing and records the domain message, not the validity
  message.  When the normalised address is the submitted one with the part after the
  at sign in lower case, this is the suffix test on the submitted address with the
  case of the letters ignored.  When \<^verbatim>\<open>validate_email\<close> raises
  \<^verbatim>\<open>EmailUndeliverableError\<close>, as it does for a well-formed address whose domain it
  finds unable to receive mail, the pass records the validity message.
\<close>

theorem kindle_suffix_checked_on_normalized_address:
  assumes "d ''kindleEmail'' = Some a" and "a \<noteq> []"
  shows
    "(lib a = Normalized n \<longrightarrow>
        ((kindle_email (snd (validate_emails (except_not_valid lib) (Validator d))) = Some n \<and>
          errors (snd (validate_emails (except_not_valid lib) (Validator d))) ''kindleEmail'' = None) =
         (endswith n ''@kindle.com'' \<or> endswith n ''@free.kindle.com'')) \<and>
        (if endswith n ''@kindle.com'' \<or> endswith n ''@free.kindle.com''
         then kindle_email (snd (validate_emails (except_not_valid lib) (Validator d))) = Some n \<and>
              errors (snd (validate_emails (except_not_valid lib) (Validator d))) ''kindleEmail'' = None
         else kindle_email (snd (validate_emails (except_not_valid lib) (Validator d))) = None \<and>
              errors (snd (validate_emails (except_not_valid lib) (Validator d))) ''kindleEmail'' =
                Some ''Given Kindle email does not end with @kindle.com or @free.kindle.com'')) \<and>
     (lib a = Normalized n \<and> a = lp @ CHR ''@'' # dm \<and> CHR ''@'' \<notin> set dm \<and>
      n = lp @ CHR ''@'' # map lower_char dm \<longrightarrow>
        (kindle_email (snd (validate_emails (except_not_valid lib) (Validator d))) = Some n \<and>
         errors (snd (validate_emails (except_not_valid lib) (Validator d))) ''kindleEmail'' = None) =
        (ci_endswith a ''@kindle.com'' \<or> ci_endswith a ''@free.kindle.com'')) \<and>
     (lib a = EmailUndeliverableError \<longrightarrow>
        kindle_email (snd (validate_emails (except_not_valid lib) (Validator d))) = None \<and>
        errors (snd (validate_emails (except_not_valid lib) (Validator d))) ''kindleEmail'' =
          Some ''Kindle email is not a valid email address'')"
proof -
  note kg = kindle_given [where d = d and a = a and ve = "except_not_valid lib", OF assms]
  have one: "((kindle_email (snd (validate_emails (except_not_valid lib) (Validator d))) = Some n \<and>
          errors (snd (validate_emails (except_not_valid lib) (Validator d))) ''kindleEmail'' = None) =
         (endswith n ''@kindle.com'' \<or> endswith n ''@free.kindle.com'')) \<and>
        (if endswith n ''@kindle.com'' \<or> endswith n ''@free.kindle.com''
         then kindle_email (snd (validate_emails (except_not_valid lib) (Validator d))) = Some n \<and>
              errors (snd (validate_emails (except_not_valid lib) (Validator d))) ''kindleEmail'' = None
         else kindle_email (snd (validate_emails (except_not_valid lib) (Validator d))) = None \<and>
              errors (snd (validate_emails (except_not_valid lib) (Validator d))) ''kindleEmail'' =
                Some ''Given Kindle email does not end with @kindle.com or @free.kindle.com'')"
    if "lib a = Normalized n"
    unfolding kg using that by (simp add: except_not_valid_simps)
  have fold: "(endswith n ''@kindle.com'' \<or> endswith n ''@free.kindle.com'') =
              (ci_endswith a ''@kindle.com'' \<or> ci_endswith a ''@free.kindle.com'')"
    if "a = lp @ CHR ''@'' # dm" "CHR ''@'' \<notin> set dm" "n = lp @ CHR ''@'' # map lower_char dm"
  proof -
    have "endswith n (CHR ''@'' # ''kindle.com'') = ci_endswith a (CHR ''@'' # ''kindle.com'')"
      unfolding that(1) that(3) using that(2) by (intro lowered_domain suffix_lower) simp_all
    moreover have "endswith n (CHR ''@'' # ''free.kindle.com'') =
                   ci_endswith a (CHR ''@'' # ''free.kindle.com'')"
      unfolding that(1) that(3) using that(2) by (intro lowered_domain suffix_lower) simp_all
    ultimately show ?thesis
      by simp
  qed
  have three: "kindle_email (snd (validate_emails (except_not_valid lib) (Validator d))) = None \<and>
        errors (snd (validate_emails (except_not_valid lib) (Validator d))) ''kindleEmail'' =
          Some ''Kindle email is not a valid email address''"
    if "lib a = EmailUndeliverableError"
    unfolding kg using that by (simp add: except_not_valid_simps)
  from one fold three show ?thesis
    by blast
qed

theorem kindle_suffix_checked_on_normalized_address_witness:
  "kindle_email (snd (validate_emails
      (except_not_valid (table_lib [(''Reader@Kindle.COM'', ''Reader@kindle.com'')]))
      (Validator [''kindleEmail'' \<mapsto> ''Reader@Kindle.COM'']))) = Some ''Reader@kindle.com'' \<and>
   ci_endswith ''Reader@Kindle.COM'' ''@kindle.com'' \<and>
   errors (snd (validate_emails (except_not_valid (table_lib []))
      (Validator [''kindleEmail'' \<mapsto> ''reader@kindle-unregistered.com''])))
      ''kindleEmail'' = Some ''Kindle email is not a valid email address''"
proof -
  let ?lib = "table_lib [(''Reader@Kindle.COM'', ''Reader@kindle.com'')]"
  have l: "?lib ''Reader@Kindle.COM'' = Normalized ''Reader@kindle.com''"
    by (simp add: table_lib_def)
  have s: "''Reader@Kindle.COM'' = ''Reader'' @ CHR ''@'' # ''Kindle.COM''"
    "CHR ''@'' \<notin> set ''Kindle.COM''"
    by simp_all
  have n: "''Reader@kindle.com'' = ''Reader'' @ CHR ''@'' # map lower_char ''Kindle.COM''"
    by code_simp
  have c: "ci_endswith ''Reader@Kindle.COM'' ''@kindle.com''"
    by code_simp
  have u: "table_lib [] ''reader@kindle-unregistered.com'' = EmailUndeliverableError"
    by (simp add: table_lib_def)
  have f1: "[''kindleEmail'' \<mapsto> ''Reader@Kindle.COM''] ''kindleEmail'' = Some ''Reader@Kindle.COM''"
    and f2: "''Reader@Kindle.COM'' \<noteq> []"
    and g1: "[''kindleEmail'' \<mapsto> ''reader@kindle-unregistered.com''] ''kindleEmail'' =
              Some ''reader@kindle-unregistered.com''"
    and g2: "''reader@kindle-unregistered.com'' \<noteq> []"
    by simp_all
  note t1 = kindle_suffix_checked_on_normalized_address
      [where d = "[''kindleEmail'' \<mapsto> ''Reader@Kindle.COM'']" and a = "''Reader@Kindle.COM''"
         and lib = ?lib and n = "''Reader@kindle.com''" and lp = "''Reader''"
         and dm = "''Kindle.COM''", OF f1 f2]
  note t2 = kindle_suffix_checked_on_normalized_address
      [where d = "[''kindleEmail'' \<mapsto> ''reader@kindle-unregistered.com'']"
         and a = "''reader@kindle-unregistered.com''" and lib = "table_lib []", OF g1 g2]
  from t1 l s n c have k: "kindle_email (snd (validate_emails (except_not_valid ?lib)
      (Validator [''kindleEmail'' \<mapsto> ''Reader@Kindle.COM'']))) = Some ''Reader@kindle.com''"
    by blast
  from t2 u have e: "errors (snd (validate_emails (except_not_valid (table_lib []))
      (Validator [''kindleEmail'' \<mapsto> ''reader@kindle-unregistered.com''])))
      ''kindleEmail'' = Some ''Kindle email is not a valid email address''"
    by blast
  from k c e show ?thesis
    by blast
qed

text \<open>
  C5, as the claim states it, fails for a well-formed address that
  \<^verbatim>\<open>validate_email\<close> rejects as undeliverable: the address does not end with either
  suffix, and the key carries the validity message, not the domain message.
\<close>

theorem undeliverable_address_gets_validity_error_counterexample:
  "table_lib [] ''reader@kindle-unregistered.com'' = EmailUndeliverableError \<and>
   \<not> ci_endswith ''reader@kindle-unregistered.com'' ''@kindle.com'' \<and>
   \<not> ci_endswith ''reader@kindle-unregistered.com'' ''@free.kindle.com'' \<and>
   errors (snd (validate_emails (except_not_valid (table_lib []))
      (Validator [''kindleEmail'' \<mapsto> ''reader@kindle-unregistered.com''])))
      ''kindleEmail'' = Some ''Kindle email is not a valid email address''"
proof -
  have a: "\<not> ci_endswith ''reader@kindle-unregistered.com'' ''@kindle.com''"
    by code_simp
  have b: "\<not> ci_endswith ''reader@kindle-unregistered.com'' ''@free.kindle.com''"
    by code_simp
  have c: "errors (snd (validate_emails (except_not_valid (table_lib []))
      (Validator [''kindleEmail'' \<mapsto> ''reader@kindle-unregistered.com''])))
      ''kindleEmail'' = Some ''Kindle email is not a valid email address''"
    by (simp add: emails_Validator email_errs_kindleEmail kindle_errs_eq not_given_def
        except_not_valid_def table_lib_def)
  from a b c show ?thesis
    by (simp add: table_lib_def)
qed

text \<open>
  C10.  Field by field: a \<^verbatim>\<open>kindleEmail\<close> that is present, not empty and accepted by
  \<^verbatim>\<open>validate_email\<close> is stored as the normalised address that was returned (if it
  passes the suffix test, and not at all otherwise); a \<^verbatim>\<open>notifyEmail\<close> that is
  present, not empty and accepted is stored as the normalised address that was
  returned, whatever becomes of the other field.  When the request succeeds the
  persisted row is the constructed \<^verbatim>\<open>User\<close>, whose \<^verbatim>\<open>kindle_mail\<close> and \<^verbatim>\<open>email\<close> are
  the normalised addresses returned for the two submitted strings, not the submitted
  strings.
\<close>

theorem normalized_address_is_persisted:
  "(d ''kindleEmail'' = Some a \<and> a \<noteq> [] \<and> validate_email en a = Some n \<longrightarrow>
      kindle_email (validated en d) =
        (if endswith n ''@kindle.com'' \<or> endswith n ''@free.kindle.com''
         then Some n else None)) \<and>
   (d ''notifyEmail'' = Some b \<and> b \<noteq> [] \<and> validate_email en b = Some m \<longrightarrow>
      notify_email (validated en d) = Some m) \<and>
   (r_errors (fst (post en d w)) = Map.empty \<longrightarrow>
      rows (snd (post en d w)) = rows w @ [candidate en d] \<and>
      name (candidate en d) = d ''username'') \<and>
   (r_errors (fst (post en d w)) = Map.empty \<and> d ''kindleEmail'' = Some a \<and>
    validate_email en a = Some n \<longrightarrow>
      kindle_mail (candidate en d) = Some n) \<and>
   (r_errors (fst (post en d w)) = Map.empty \<and> d ''notifyEmail'' = Some b \<and>
    validate_email en b = Some m \<longrightarrow>
      email (candidate en d) = Some m)"
proof -
  have k: "kindle_email (validated en d) =
        (if endswith n ''@kindle.com'' \<or> endswith n ''@free.kindle.com''
         then Some n else None)"
    if "d ''kindleEmail'' = Some a" "a \<noteq> []" "validate_email en a = Some n"
    using that by (rule kindle_given_gather)
  have nn: "notify_email (validated en d) = Some m"
    if "d ''notifyEmail'' = Some b" "b \<noteq> []" "validate_email en b = Some m"
    using notify_given [where ve = "validate_email en" and d = d and b = b, OF that(1) that(2)]
      that(3) by simp
  have p: "rows (snd (post en d w)) = rows w @ [candidate en d] \<and>
      name (candidate en d) = d ''username''"
    if ok: "r_errors (fst (post en d w)) = Map.empty"
  proof -
    from ok have c: "success (validated en d)"
      "fst (query_count (username (validated en d)) w) = 0"
      "get_token en (candidate en d) (password (validated en d))"
      by (simp_all add: post_no_error_iff)
    show ?thesis
      by (simp add: post_committed [OF c] success_fields(1) [OF c(1)])
  qed
  have pk: "kindle_mail (candidate en d) = Some n"
    if ok: "r_errors (fst (post en d w)) = Map.empty" and "d ''kindleEmail'' = Some a"
      and "validate_email en a = Some n"
  proof -
    from ok have c: "success (validated en d)"
      by (simp add: post_no_error_iff)
    show ?thesis
      using success_fields(3) [OF c] that(2,3) by simp
  qed
  have pn: "email (candidate en d) = Some m"
    if ok: "r_errors (fst (post en d w)) = Map.empty" and "d ''notifyEmail'' = Some b"
      and "validate_email en b = Some m"
  proof -
    from ok have c: "success (validated en d)"
      by (simp add: post_no_error_iff)
    show ?thesis
      using success_fields(5) [OF c] that(2,3) by simp
  qed
  from k nn p pk pn show ?thesis
    by blast
qed

theorem normalized_address_is_persisted_witness:
  "rows (snd (post
      (stub_env (map_of [(''Reader@Kindle.COM'', ''Reader@kindle.com''),
                         (''Reader@Example.ORG'', ''Reader@example.org'')]) True)
      [''username'' \<mapsto> ''reader'', ''password'' \<mapsto> ''secret'',
       ''kindleEmail'' \<mapsto> ''Reader@Kindle.COM'', ''notifyEmail'' \<mapsto> ''Reader@Example.ORG'']
      \<lparr>rows = [], trace = []\<rparr>)) =
     [\<lparr>name = Some ''reader'', kindle_mail = Some ''Reader@kindle.com'',
       email = Some ''Reader@example.org''\<rparr>] \<and>
   notify_email (validated
      (stub_env (map_of [(''Reader@Example.ORG'', ''Reader@example.org'')]) True)
      [''notifyEmail'' \<mapsto> ''Reader@Example.ORG'']) = Some ''Reader@example.org''"
proof -
  let ?en = "stub_env (map_of [(''Reader@Kindle.COM'', ''Reader@kindle.com''),
                         (''Reader@Example.ORG'', ''Reader@example.org'')]) True"
  let ?d = "[''username'' \<mapsto> ''reader'', ''password'' \<mapsto> ''secret'',
       ''kindleEmail'' \<mapsto> ''Reader@Kindle.COM'', ''notifyEmail'' \<mapsto> ''Reader@Example.ORG'']"
  let ?w0 = "\<lparr>rows = [], trace = []\<rparr>"
  let ?en2 = "stub_env (map_of [(''Reader@Example.ORG'', ''Reader@example.org'')]) True"
  let ?d2 = "[''notifyEmail'' \<mapsto> ''Reader@Example.ORG'']"
  have "success (validated ?en ?d)"
    "fst (query_count (username (validated ?en ?d)) ?w0) = 0"
    "get_token ?en (candidate ?en ?d) (password (validated ?en ?d))"
    by (simp_all add: eval_validated)
  then have ok: "r_errors (fst (post ?en ?d ?w0)) = Map.empty"
    unfolding post_no_error_iff by blast
  have v: "validate_email ?en ''Reader@Kindle.COM'' = Some ''Reader@kindle.com''"
    "validate_email ?en ''Reader@Example.ORG'' = Some ''Reader@example.org''"
    "validate_email ?en2 ''Reader@Example.ORG'' = Some ''Reader@example.org''"
    by (simp_all add: stub_env_def)
  have f: "?d ''kindleEmail'' = Some ''Reader@Kindle.COM''"
    "?d ''notifyEmail'' = Some ''Reader@Example.ORG''"
    "?d ''username'' = Some ''reader''"
    "?d2 ''notifyEmail'' = Some ''Reader@Example.ORG''"
    by simp_all
  have e: "endswith ''Reader@kindle.com'' ''@kindle.com''"
    by (simp add: endswith_def)
  have r: "rows ?w0 = []"
    by simp
  note t1 = normalized_address_is_persisted [of ?d "''Reader@Kindle.COM''" ?en
      "''Reader@kindle.com''" "''Reader@Example.ORG''" "''Reader@example.org''" ?w0]
  note t2 = normalized_address_is_persisted [of ?d2 "''Reader@Kindle.COM''" ?en2
      "''Reader@kindle.com''" "''Reader@Example.ORG''" "''Reader@example.org''" ?w0]
  have ne: "''Reader@Kindle.COM'' \<noteq> []" "''Reader@Example.ORG'' \<noteq> []"
    by simp_all
  from t1 ok have row: "rows (snd (post ?en ?d ?w0)) = rows ?w0 @ [candidate ?en ?d]"
    and nm: "name (candidate ?en ?d) = ?d ''username''"
    by blast+
  from t1 ok f(1) v(1) have km: "kindle_mail (candidate ?en ?d) = Some ''Reader@kindle.com''"
    by blast
  from t1 ok f(2) v(2) have em: "email (candidate ?en ?d) = Some ''Reader@example.org''"
    by blast
  from t2 f(4) v(3) ne(2)
  have n2: "notify_email (validated ?en2 ?d2) = Some ''Reader@example.org''"
    by blast
  have "candidate ?en ?d = \<lparr>name = Some ''reader'', kindle_mail = Some ''Reader@kindle.com'',
       email = Some ''Reader@example.org''\<rparr>"
    using nm km em by simp
  with row r n2 show ?thesis
    by simp
qed

end
